theory Spec2Isabelle
  imports Complex_Main
begin

section \<open>Python values\<close>

text \<open>
  A Python \<open>str\<close> is a sequence of Unicode code points; it is modelled as the list of
  its code points, so that \<open>length\<close> counts what Python's \<open>len\<close> and SQLite's
  \<open>LENGTH\<close> count. A Python \<open>float\<close> is modelled as a real number: the theorems below
  are about the arithmetic the code writes down, read over the reals (no rounding,
  no infinities, no NaN). An exception is a value of \<open>py_error\<close> on the left of a sum.
\<close>

type_synonym pystr = "nat list"

datatype py_error =
  ValueError string | ZeroDivisionError | TypeError | UnicodeEncodeError | OperationalError

text \<open>
  The code points for which \<open>str.isspace\<close> holds; \<open>str.strip\<close> and the regular
  expression class \<open>\s\<close> both use this set.
\<close>

definition is_space :: "nat \<Rightarrow> bool" where
  "is_space c \<longleftrightarrow>
     (9 \<le> c \<and> c \<le> 13) \<or> (28 \<le> c \<and> c \<le> 32) \<or> c = 133 \<or> c = 160 \<or> c = 5760 \<or>
     (8192 \<le> c \<and> c \<le> 8202) \<or> c = 8232 \<or> c = 8233 \<or> c = 8239 \<or> c = 8287 \<or> c = 12288"

definition strip :: "pystr \<Rightarrow> pystr" where
  "strip s = rev (dropWhile is_space (rev (dropWhile is_space s)))"

text \<open>
  The zero digits of the Unicode decimal digit blocks (general category Nd, Unicode 14);
  each block holds the ten digits \<open>z, \<dots>, z + 9\<close>. The regular expression class \<open>\d\<close>
  matches exactly these code points, and \<open>float\<close> reads each as its digit value.
\<close>

definition decimal_zeros :: "nat list" where
  "decimal_zeros =
     [48, 1632, 1776, 1984, 2406, 2534, 2662, 2790, 2918, 3046, 3174, 3302, 3430, 3558,
      3664, 3792, 3872, 4160, 4240, 6112, 6160, 6470, 6608, 6784, 6800, 6992, 7088, 7232,
      7248, 42528, 43216, 43264, 43472, 43504, 43600, 44016, 65296, 66720, 68912, 69734,
      69872, 69942, 70096, 70384, 70736, 70864, 71248, 71360, 71472, 71904, 72016, 72784,
      73040, 73120, 92768, 92864, 93008, 120782, 120792, 120802, 120812, 120822, 123200,
      123632, 125264, 130032]"

definition digit_val :: "nat \<Rightarrow> nat option" where
  "digit_val c =
     (case find (\<lambda>z. z \<le> c \<and> c < z + 10) decimal_zeros of
        Some z \<Rightarrow> Some (c - z)
      | None \<Rightarrow> None)"

definition is_digit :: "nat \<Rightarrow> bool" where
  "is_digit c \<longleftrightarrow> digit_val c \<noteq> None"

text \<open>\<open>re.split\<close> on a one-character separator class, and \<open>str.split(sep)\<close>: every
  separator ends a piece, and empty pieces are kept.\<close>

fun split_on :: "(nat \<Rightarrow> bool) \<Rightarrow> pystr \<Rightarrow> pystr list" where
  "split_on sep [] = [[]]"
| "split_on sep (c # cs) =
     (if sep c then [] # split_on sep cs
      else (case split_on sep cs of
              [] \<Rightarrow> [[c]]
            | p # ps \<Rightarrow> (c # p) # ps))"

text \<open>\<open>str.replace(old, new)\<close> for a non-empty \<open>old\<close>: non-overlapping occurrences,
  leftmost first.\<close>

fun str_replace :: "pystr \<Rightarrow> pystr \<Rightarrow> pystr \<Rightarrow> pystr" where
  "str_replace old new [] = []"
| "str_replace old new (c # cs) =
     (if old \<noteq> [] \<and> take (length old) (c # cs) = old
      then new @ str_replace old new (drop (length old - 1) cs)
      else c # str_replace old new cs)"

text \<open>\<open>re.sub(r"\s+", " ", s)\<close>: every maximal run of white space becomes one space.\<close>

function collapse_ws :: "pystr \<Rightarrow> pystr" where
  "collapse_ws [] = []"
| "collapse_ws (c # cs) =
     (if is_space c then 32 # collapse_ws (dropWhile is_space cs)
      else c # collapse_ws cs)"
  by pat_completeness auto
termination
  by (relation "measure length") (auto simp: length_dropWhile_le less_Suc_eq_le)

section \<open>Catalog and synonym tables (db.py)\<close>

text \<open>
  The store is SQLite. Table \<open>food_items\<close> is modelled as the list of its rows in rowid
  order, table \<open>food_synonyms\<close> as the association list alias \<open>\<mapsto>\<close> canonical; both
  columns \<open>name\<close> and \<open>alias\<close> are declared \<open>UNIQUE\<close>. Every call of the code
  reads the same tables, so they are passed as arguments.
\<close>

record food =
  name :: pystr
  kcal :: real
  protein :: real
  fat :: real
  carbs :: real

type_synonym catalog = "food list"
type_synonym synonyms = "(pystr \<times> pystr) list"

text \<open>
  SQLite's \<open>LIKE\<close>: \<open>%\<close> (37) matches any run of characters, \<open>_\<close> (95) any one
  character, and any other pattern character matches itself, ASCII letters without
  regard to case. The query of \<open>get_food\<close> uses the pattern \<open>%name%\<close> with no escape
  character, so a \<open>%\<close> or \<open>_\<close> inside the name is a wildcard too. \<open>LIKE\<close> reads its
  pattern and the row name as C strings, that is, up to the first U+0000, and
  \<open>LENGTH\<close> counts the characters before the first U+0000.
\<close>

definition c_string :: "pystr \<Rightarrow> pystr" where
  "c_string s = takeWhile (\<lambda>c. c \<noteq> 0) s"

definition ascii_lower :: "nat \<Rightarrow> nat" where
  "ascii_lower c = (if 65 \<le> c \<and> c \<le> 90 then c + 32 else c)"

fun like :: "pystr \<Rightarrow> pystr \<Rightarrow> bool" where
  "like [] [] = True"
| "like [] (c # cs) = False"
| "like (p # ps) [] = (p = 37 \<and> like ps [])"
| "like (p # ps) (c # cs) =
     (if p = 37 then like ps (c # cs) \<or> like (p # ps) cs
      else (p = 95 \<or> ascii_lower p = ascii_lower c) \<and> like ps cs)"

definition like_contains :: "pystr \<Rightarrow> pystr \<Rightarrow> bool" where
  "like_contains s row_name = like (c_string ([37] @ s @ [37])) (c_string row_name)"

text \<open>
  \<open>ORDER BY LENGTH(name) ASC LIMIT 1\<close>: a row of least name length. SQLite leaves the
  choice among rows of equal length open; the model takes the first of them in table
  order, and no theorem below depends on that choice.
\<close>

fun shortest :: "food list \<Rightarrow> food option" where
  "shortest [] = None"
| "shortest (r # rs) =
     (case shortest rs of
        None \<Rightarrow> Some r
      | Some b \<Rightarrow>
          if length (c_string (name r)) \<le> length (c_string (name b)) then Some r else Some b)"

text \<open>
  \<open>get_food_query\<close> is \<open>get_food\<close> of db.py with its two ways to fail. Binding the name
  to the first query raises \<open>UnicodeEncodeError\<close> when the string does not encode as
  UTF-8, that is, when it holds a lone surrogate (a number above U+10FFFF is no code point
  of a string at all and is counted with them). When the exact query finds no row, the
  \<open>LIKE\<close> query is made, and SQLite raises \<open>OperationalError\<close> for a pattern \<open>%name%\<close>
  of more than 50000 bytes.
\<close>

definition utf8_length :: "pystr \<Rightarrow> nat" where
  "utf8_length s =
     sum_list (map (\<lambda>c. if c < 128 then 1 else if c < 2048 then 2
                          else if c < 65536 then 3 else 4) s)"

definition encodable :: "pystr \<Rightarrow> bool" where
  "encodable s \<longleftrightarrow> list_all (\<lambda>c. (c < 55296 \<or> 57343 < c) \<and> c \<le> 1114111) s"

definition get_food_query :: "catalog \<Rightarrow> pystr \<Rightarrow> py_error + food option" where
  "get_food_query cat s =
     (if \<not> encodable s then Inl UnicodeEncodeError
      else case find (\<lambda>r. name r = s) cat of
        Some r \<Rightarrow> Inr (Some r)
      | None \<Rightarrow>
          if 50000 < utf8_length s + 2 then Inl OperationalError
          else Inr (shortest (filter (\<lambda>r. like_contains s (name r)) cat)))"


definition get_food :: "catalog \<Rightarrow> pystr \<Rightarrow> food option" where
  "get_food cat s =
     (case find (\<lambda>r. name r = s) cat of
        Some r \<Rightarrow> Some r
      | None \<Rightarrow> shortest (filter (\<lambda>r. like_contains s (name r)) cat))"

definition resolve_canonical :: "synonyms \<Rightarrow> catalog \<Rightarrow> pystr \<Rightarrow> pystr" where
  "resolve_canonical syn cat name0 =
     (let s = strip name0 in
      case map_of syn s of
        Some canonical \<Rightarrow> canonical
      | None \<Rightarrow>
          (case find (\<lambda>r. name r = s) cat of
             Some r \<Rightarrow> name r
           | None \<Rightarrow> s))"




section \<open>Food text parser (food_parser.py)\<close>

subsection \<open>Unit table and unit converter\<close>

definition unit_g :: pystr where "unit_g = [103]"
definition unit_kg :: pystr where "unit_kg = [107, 103]"
definition unit_ml :: pystr where "unit_ml = [109, 108]"
definition unit_l :: pystr where "unit_l = [108]"
definition unit_gae :: pystr where "unit_gae = [44060]"
definition unit_gonggi :: pystr where "unit_gonggi = [44277, 44592]"
definition unit_keunsul :: pystr where "unit_keunsul = [53360, 49696]"
definition unit_jageunsul :: pystr where "unit_jageunsul = [51089, 51008, 49696]"

lemmas unit_defs =
  unit_g_def unit_kg_def unit_ml_def unit_l_def
  unit_gae_def unit_gonggi_def unit_keunsul_def unit_jageunsul_def

definition UNIT_TO_G :: "(pystr \<times> real) list" where
  "UNIT_TO_G =
     [(unit_g, 1), (unit_kg, 1000), (unit_ml, 1), (unit_l, 1000),
      (unit_gae, 50), (unit_gonggi, 210), (unit_keunsul, 13.5), (unit_jageunsul, 4.5)]"

definition to_grams :: "real \<Rightarrow> pystr option \<Rightarrow> pystr \<Rightarrow> real" where
  "to_grams value unit food_name =
     (case unit of
        None \<Rightarrow> value
      | Some u \<Rightarrow>
          (case map_of UNIT_TO_G u of
             None \<Rightarrow> value
           | Some base \<Rightarrow> value * base))"

subsection \<open>Quantity extractor\<close>

text \<open>
  \<open>NUM_UNIT_RE\<close> is \<open>(\d+(?:\.\d+)?)\s*(g|kg|ml|l|\<dots>)?\<close> with \<open>re.IGNORECASE\<close>.
  Every part after \<open>\d+\<close> may match the empty string, so \<open>search\<close> succeeds at the
  first digit of the segment and takes, greedily and without backtracking: all digits,
  a fraction if a dot and a digit follow, all white space, and the first alternative of
  the unit group that matches there. Under \<open>IGNORECASE\<close> a character matches a pattern
  letter when its lower case is that letter; \<open>unit_lower\<close> is Python's lower case on
  the characters that can match a unit letter (A-Z and the Kelvin sign U+212A).
\<close>

definition unit_lower :: "nat \<Rightarrow> nat" where
  "unit_lower c = (if 65 \<le> c \<and> c \<le> 90 then c + 32 else if c = 8490 then 107 else c)"

fun match_literal :: "pystr \<Rightarrow> pystr \<Rightarrow> bool" where
  "match_literal [] s = True"
| "match_literal (p # ps) [] = False"
| "match_literal (p # ps) (c # cs) = (unit_lower c = p \<and> match_literal ps cs)"

definition UNIT_ALTERNATIVES :: "pystr list" where
  "UNIT_ALTERNATIVES =
     [unit_g, unit_kg, unit_ml, unit_l, unit_gae, unit_gonggi, unit_keunsul, unit_jageunsul]"

definition match_unit :: "pystr \<Rightarrow> pystr option" where
  "match_unit s =
     (case find (\<lambda>u. match_literal u s) UNIT_ALTERNATIVES of
        Some u \<Rightarrow> Some (take (length u) s)
      | None \<Rightarrow> None)"

record re_match =
  m_start :: nat
  m_end :: nat
  group1 :: pystr
  group2 :: "pystr option"

definition NUM_UNIT_RE_search :: "pystr \<Rightarrow> re_match option" where
  "NUM_UNIT_RE_search s =
     (let pre = takeWhile (\<lambda>c. \<not> is_digit c) s;
          r0 = drop (length pre) s
      in if r0 = [] then None
         else
           let ds = takeWhile is_digit r0;
               r1 = drop (length ds) r0;
               frac = (case r1 of
                         [] \<Rightarrow> []
                       | d # r \<Rightarrow>
                           if d = 46 \<and> takeWhile is_digit r \<noteq> []
                           then 46 # takeWhile is_digit r else []);
               r2 = drop (length frac) r1;
               ws = takeWhile is_space r2;
               r3 = drop (length ws) r2;
               u = match_unit r3
           in Some \<lparr>m_start = length pre,
                     m_end = length pre + length ds + length frac + length ws
                             + (case u of None \<Rightarrow> 0 | Some t \<Rightarrow> length t),
                     group1 = ds @ frac,
                     group2 = u\<rparr>)"

text \<open>\<open>float\<close> on the text of group 1, which is digits with an optional fraction.\<close>

definition digits_value :: "pystr \<Rightarrow> nat" where
  "digits_value ds =
     foldl (\<lambda>a c. 10 * a + (case digit_val c of Some d \<Rightarrow> d | None \<Rightarrow> 0)) 0 ds"

definition float_literal :: "pystr \<Rightarrow> real" where
  "float_literal g =
     (let ip = takeWhile (\<lambda>c. c \<noteq> 46) g;
          fp = drop (length ip + 1) g
      in real (digits_value ip) + real (digits_value fp) / 10 ^ length fp)"

definition extract_amount :: "pystr \<Rightarrow> (real \<times> pystr option) option" where
  "extract_amount segment =
     (case NUM_UNIT_RE_search segment of
        None \<Rightarrow> None
      | Some m \<Rightarrow>
          Some (float_literal (group1 m),
                (case group2 m of None \<Rightarrow> None | Some t \<Rightarrow> Some (map unit_lower t))))"

subsection \<open>Segment parser\<close>

record ParsedItem =
  raw_name :: pystr
  canonical_name :: pystr
  grams :: real

definition word_and :: pystr where "word_and = [44536, 47532, 44256]"

definition split_items :: "pystr \<Rightarrow> pystr list" where
  "split_items text =
     (let text' = str_replace word_and [44] text
      in map strip
           (filter (\<lambda>p. strip p \<noteq> [])
              (split_on (\<lambda>c. c = 44 \<or> c = 10 \<or> c = 47) text')))"

text \<open>The name text of a segment: the local \<open>name_part\<close> of \<open>parse_text\<close>.\<close>

definition name_part :: "pystr \<Rightarrow> pystr" where
  "name_part segment =
     (let np0 = (case NUM_UNIT_RE_search segment of
                   None \<Rightarrow> segment
                 | Some m \<Rightarrow> strip (take (m_start m) segment @ drop (m_end m) segment));
          np1 = strip (collapse_ws np0)
      in if np1 = [] then strip segment else np1)"

text \<open>
  The body of the loop of \<open>parse_text\<close> for one segment: \<open>Inl\<close> the segment when it goes
  to \<open>unresolved\<close>, \<open>Inr\<close> the item appended to \<open>items\<close>.
\<close>

definition parse_segment :: "synonyms \<Rightarrow> catalog \<Rightarrow> pystr \<Rightarrow> pystr + ParsedItem" where
  "parse_segment syn cat segment =
     (let amt = extract_amount segment;
          np = name_part segment;
          canonical = resolve_canonical syn cat np;
          value_g = (case amt of
                       Some (v, u) \<Rightarrow> to_grams v u canonical
                     | None \<Rightarrow> 100);
          food = (case get_food cat canonical of
                    Some f \<Rightarrow> Some f
                  | None \<Rightarrow> get_food cat np)
      in case food of
           None \<Rightarrow> Inl segment
         | Some f \<Rightarrow> Inr \<lparr>raw_name = np, canonical_name = name f, grams = value_g\<rparr>)"

fun parse_loop ::
  "synonyms \<Rightarrow> catalog \<Rightarrow> pystr list \<Rightarrow> ParsedItem list \<Rightarrow> pystr list
     \<Rightarrow> ParsedItem list \<times> pystr list" where
  "parse_loop syn cat [] items unresolved = (items, unresolved)"
| "parse_loop syn cat (segment # rest) items unresolved =
     (if segment = [] then parse_loop syn cat rest items unresolved
      else (case parse_segment syn cat segment of
              Inl s \<Rightarrow> parse_loop syn cat rest items (unresolved @ [s])
            | Inr it \<Rightarrow> parse_loop syn cat rest (items @ [it]) unresolved))"

definition parse_text :: "synonyms \<Rightarrow> catalog \<Rightarrow> pystr \<Rightarrow> ParsedItem list \<times> pystr list" where
  "parse_text syn cat text = parse_loop syn cat (split_items text) [] []"

subsection \<open>Nutrition scaler\<close>



section \<open>Macro ratios (models.py)\<close>

text \<open>
  A dictionary from strings to floats is an association list. Python's built-in
  \<open>float\<close> on an arbitrary string is a parameter: \<open>None\<close> where it raises
  \<open>ValueError\<close>.
\<close>

type_synonym pydict = "(pystr \<times> real) list"

definition key_carb :: pystr where "key_carb = [99, 97, 114, 98]"
definition key_protein :: pystr where "key_protein = [112, 114, 111, 116, 101, 105, 110]"
definition key_fat :: pystr where "key_fat = [102, 97, 116]"

definition msg_macro_parts :: string where
  "msg_macro_parts = ''macro must be '' @ [CHR 0x27] @ ''carb,protein,fat'' @ [CHR 0x27]"

definition msg_macro_positive :: string where
  "msg_macro_positive = ''macro ratios must be positive''"

definition msg_float :: string where
  "msg_float = ''could not convert string to float''"

definition parse_macro_str :: "(pystr \<Rightarrow> real option) \<Rightarrow> pystr \<Rightarrow> py_error + pydict" where
  "parse_macro_str pyfloat s =
     (let parts = map strip (split_on (\<lambda>c. c = 44) s)
      in if length parts \<noteq> 3 then Inl (ValueError msg_macro_parts)
         else
           (case pyfloat (parts ! 0) of
              None \<Rightarrow> Inl (ValueError msg_float)
            | Some c \<Rightarrow>
           (case pyfloat (parts ! 1) of
              None \<Rightarrow> Inl (ValueError msg_float)
            | Some p \<Rightarrow>
           (case pyfloat (parts ! 2) of
              None \<Rightarrow> Inl (ValueError msg_float)
            | Some f \<Rightarrow>
                let total = c + p + f
                in if total \<le> 0 then Inl (ValueError msg_macro_positive)
                   else Inr [(key_carb, c / total), (key_protein, p / total),
                             (key_fat, f / total)]))))"

section \<open>Meal recommender (recommender.py)\<close>

definition PROTEIN_FOODS :: "pystr list" where
  "PROTEIN_FOODS =
     [[45805, 44032, 49844, 49332], [52280, 52824, 52884, 40, 47932, 41], [44228, 46976],
      [46160, 48512], [50836, 44144, 53944], [50672, 50612], [44256, 46321, 50612]]"

definition CARB_FOODS :: "pystr list" where
  "CARB_FOODS =
     [[48177, 48120, 48165], [54788, 48120, 48165], [44256, 44396, 47560],
      [48148, 45208, 45208], [49324, 44284]]"

definition FAT_HELPERS :: "pystr list" where
  "FAT_HELPERS = [[50672, 50612], [44256, 46321, 50612], [50836, 44144, 53944]]"

record FoodPortion =
  p_name :: pystr
  p_grams :: real
  p_kcal :: real
  p_protein :: real
  p_fat :: real
  p_carbs :: real

definition nutrition_for :: "catalog \<Rightarrow> pystr \<Rightarrow> real \<Rightarrow> FoodPortion" where
  "nutrition_for cat nm g =
     (case get_food cat nm of
        None \<Rightarrow> \<lparr>p_name = nm, p_grams = g, p_kcal = 0, p_protein = 0, p_fat = 0, p_carbs = 0\<rparr>
      | Some f \<Rightarrow>
          let factor = g / 100
          in \<lparr>p_name = nm, p_grams = g, p_kcal = kcal f * factor,
              p_protein = protein f * factor, p_fat = fat f * factor,
              p_carbs = carbs f * factor\<rparr>)"

text \<open>The locals of one pass of the meal loop, and the dictionary a pass appends.\<close>

record meal_state =
  portions :: "FoodPortion list"
  total_kcal :: real
  total_p :: real
  total_f :: real
  total_c :: real

record meal_plan =
  items :: "FoodPortion list"
  plan_kcal :: real
  plan_protein :: real
  plan_fat :: real
  plan_carbs :: real

definition empty_meal :: meal_state where
  "empty_meal = \<lparr>portions = [], total_kcal = 0, total_p = 0, total_f = 0, total_c = 0\<rparr>"

definition add_portion :: "FoodPortion \<Rightarrow> meal_state \<Rightarrow> meal_state" where
  "add_portion fp st =
     \<lparr>portions = portions st @ [fp],
      total_kcal = total_kcal st + p_kcal fp,
      total_p = total_p st + p_protein fp,
      total_f = total_f st + p_fat fp,
      total_c = total_c st + p_carbs fp\<rparr>"

text \<open>The scan for the protein source: the first candidate the catalog lookup finds.\<close>

fun pick_loop :: "catalog \<Rightarrow> pystr list \<Rightarrow> pystr option" where
  "pick_loop cat [] = None"
| "pick_loop cat (cand # rest) =
     (case get_food cat cand of
        Some info \<Rightarrow> Some cand
      | None \<Rightarrow> pick_loop cat rest)"

definition protein_candidates :: "pystr list \<Rightarrow> pystr list \<Rightarrow> pystr list" where
  "protein_candidates avoid prefer = filter (\<lambda>f. f \<notin> set avoid) (prefer @ PROTEIN_FOODS)"

text \<open>
  \<open>if picked:\<close> is Python truthiness: it fails for \<open>None\<close> and for the empty string.
  \<open>get_food(picked)["protein"]\<close> raises \<open>TypeError\<close> when the lookup returns \<open>None\<close>.
\<close>

definition protein_slot ::
  "catalog \<Rightarrow> pystr list \<Rightarrow> pystr list \<Rightarrow> real \<Rightarrow> meal_state \<Rightarrow> py_error + meal_state" where
  "protein_slot cat avoid prefer protein_per_meal st =
     (case pick_loop cat (protein_candidates avoid prefer) of
        None \<Rightarrow> Inr st
      | Some picked \<Rightarrow>
          if picked = [] then Inr st
          else
            (case get_food cat picked of
               None \<Rightarrow> Inl TypeError
             | Some info \<Rightarrow>
                 let p100 = protein info;
                     g = min 200 (max 50 (protein_per_meal / max p100 0.1 * 100));
                     fp = nutrition_for cat picked g
                 in Inr (add_portion fp st)))"

text \<open>
  The bodies of the two \<open>for\<close> loops over candidate names: \<open>Continue\<close> goes on to
  the next candidate (also after \<open>continue\<close>), \<open>Break\<close> leaves the loop.
\<close>

datatype 'a loop_step = Continue 'a | Break 'a

fun step_state :: "'a loop_step \<Rightarrow> 'a" where
  "step_state (Continue s) = s"
| "step_state (Break s) = s"

definition carb_body ::
  "catalog \<Rightarrow> pystr list \<Rightarrow> real \<Rightarrow> real \<Rightarrow> pystr \<Rightarrow> meal_state \<Rightarrow> meal_state loop_step" where
  "carb_body cat avoid lower per_meal carb st =
     (if carb \<in> set avoid then Continue st
      else
        (case get_food cat carb of
           None \<Rightarrow> Continue st
         | Some info \<Rightarrow>
             let remain = (if total_kcal st < lower then max (lower - total_kcal st) 0
                           else per_meal - total_kcal st)
             in if remain \<le> 0 then Break st
                else
                  let g = min 250 (max 80 (remain / max (kcal info) (1 / 1000000) * 100));
                      fp = nutrition_for cat carb g;
                      st' = add_portion fp st
                  in if total_kcal st' \<ge> lower then Break st' else Continue st'))"

fun carb_loop ::
  "catalog \<Rightarrow> pystr list \<Rightarrow> real \<Rightarrow> real \<Rightarrow> pystr list \<Rightarrow> meal_state \<Rightarrow> meal_state" where
  "carb_loop cat avoid lower per_meal [] st = st"
| "carb_loop cat avoid lower per_meal (carb # rest) st =
     (case carb_body cat avoid lower per_meal carb st of
        Break st' \<Rightarrow> st'
      | Continue st' \<Rightarrow> carb_loop cat avoid lower per_meal rest st')"

definition fat_body ::
  "catalog \<Rightarrow> pystr list \<Rightarrow> real \<Rightarrow> real \<Rightarrow> pystr \<Rightarrow> meal_state \<Rightarrow> meal_state loop_step" where
  "fat_body cat avoid lower per_meal fatname st =
     (if fatname \<in> set avoid then Continue st
      else
        (case get_food cat fatname of
           None \<Rightarrow> Continue st
         | Some info \<Rightarrow>
             let add = min 100 (max 30 ((per_meal - total_kcal st)
                                          / max (kcal info) (1 / 1000000) * 100));
                 fp = nutrition_for cat fatname add;
                 st' = add_portion fp st
             in if total_kcal st' \<ge> lower then Break st' else Continue st'))"

fun fat_loop ::
  "catalog \<Rightarrow> pystr list \<Rightarrow> real \<Rightarrow> real \<Rightarrow> pystr list \<Rightarrow> meal_state \<Rightarrow> meal_state" where
  "fat_loop cat avoid lower per_meal [] st = st"
| "fat_loop cat avoid lower per_meal (fatname # rest) st =
     (case fat_body cat avoid lower per_meal fatname st of
        Break st' \<Rightarrow> st'
      | Continue st' \<Rightarrow> fat_loop cat avoid lower per_meal rest st')"

definition carb_slot ::
  "catalog \<Rightarrow> pystr list \<Rightarrow> pystr list \<Rightarrow> real \<Rightarrow> real \<Rightarrow> meal_state \<Rightarrow> meal_state" where
  "carb_slot cat avoid prefer lower per_meal st =
     carb_loop cat avoid lower per_meal (prefer @ CARB_FOODS) st"

definition fat_slot ::
  "catalog \<Rightarrow> pystr list \<Rightarrow> real \<Rightarrow> real \<Rightarrow> meal_state \<Rightarrow> meal_state" where
  "fat_slot cat avoid lower per_meal st =
     (if total_kcal st < lower then fat_loop cat avoid lower per_meal FAT_HELPERS st
      else st)"

definition plan_of :: "meal_state \<Rightarrow> meal_plan" where
  "plan_of st =
     \<lparr>items = portions st, plan_kcal = total_kcal st, plan_protein = total_p st,
      plan_fat = total_f st, plan_carbs = total_c st\<rparr>"

text \<open>One pass of \<open>for _ in range(meals)\<close>: the three slots from fresh totals.\<close>

definition one_meal ::
  "catalog \<Rightarrow> pystr list \<Rightarrow> pystr list \<Rightarrow> real \<Rightarrow> real \<Rightarrow> real \<Rightarrow> py_error + meal_plan" where
  "one_meal cat avoid prefer lower per_meal protein_per_meal =
     (case protein_slot cat avoid prefer protein_per_meal empty_meal of
        Inl e \<Rightarrow> Inl e
      | Inr st1 \<Rightarrow>
          Inr (plan_of (fat_slot cat avoid lower per_meal
                          (carb_slot cat avoid prefer lower per_meal st1))))"

fun meal_loop ::
  "catalog \<Rightarrow> pystr list \<Rightarrow> pystr list \<Rightarrow> real \<Rightarrow> real \<Rightarrow> real \<Rightarrow> nat \<Rightarrow> meal_plan list
     \<Rightarrow> py_error + meal_plan list" where
  "meal_loop cat avoid prefer lower per_meal ppm 0 plans = Inr plans"
| "meal_loop cat avoid prefer lower per_meal ppm (Suc k) plans =
     (case one_meal cat avoid prefer lower per_meal ppm of
        Inl e \<Rightarrow> Inl e
      | Inr plan \<Rightarrow> meal_loop cat avoid prefer lower per_meal ppm k (plans @ [plan]))"

text \<open>
  \<open>avoid\<close> and \<open>prefer\<close> become Python sets; \<open>avoid\<close> is only tested for membership,
  and \<open>prefer\<close> is the list of the elements of the set in the order \<open>list(prefer)\<close>
  yields them, which is the same in every pass since the set is never changed.
  \<open>range(meals)\<close> is empty for a negative \<open>meals\<close>, and \<open>target_kcal / meals\<close>
  raises for \<open>meals = 0\<close>.
\<close>

definition recommend_meals ::
  "catalog \<Rightarrow> real \<Rightarrow> pydict \<Rightarrow> real \<Rightarrow> int \<Rightarrow> pystr list \<Rightarrow> pystr list
     \<Rightarrow> py_error + meal_plan list" where
  "recommend_meals cat target_kcal macro_ratio body_weight meals avoid prefer =
     (if meals = 0 then Inl ZeroDivisionError
      else
        let per_meal = target_kcal / real_of_int meals;
            lower = per_meal * 0.9;
            upper = per_meal * 1.1;
            protein_target_g =
              max (1.6 * body_weight)
                  (target_kcal * (case map_of macro_ratio key_protein of
                                    Some r \<Rightarrow> r | None \<Rightarrow> 0.3) / 4);
            protein_per_meal = protein_target_g / real_of_int meals
        in meal_loop cat avoid prefer lower per_meal protein_per_meal (nat meals) [])"

section \<open>Example tables\<close>

text \<open>
  The catalog and the synonyms are seeded from data files (\<open>data/food_db.csv\<close>,
  \<open>data/synonyms.json\<close>) when the program runs, so the tables are arguments
  everywhere. The rows below are small tables for concrete evaluations.
\<close>

definition ex_egg :: food where
  "ex_egg = \<lparr>name = [44228, 46976], kcal = 155, protein = 13, fat = 11, carbs = 1.1\<rparr>"

definition ex_chicken :: food where
  "ex_chicken =
     \<lparr>name = [45805, 44032, 49844, 49332], kcal = 165, protein = 31, fat = 3.6, carbs = 0\<rparr>"

definition ex_rice :: food where
  "ex_rice = \<lparr>name = [48177, 48120, 48165], kcal = 130, protein = 2.7, fat = 0.3, carbs = 28.2\<rparr>"



definition ex_catalog :: catalog where
  "ex_catalog = [ex_egg, ex_chicken, ex_rice]"

definition text_bap :: pystr where
  "text_bap = [48165]"

definition ex_synonyms :: synonyms where
  "ex_synonyms = [(text_bap, [48177, 48120, 48165])]"

definition text_bap_bowl :: pystr where
  "text_bap_bowl = [48165, 32, 49, 44277, 44592]"

definition ex_float :: "pystr \<Rightarrow> real option" where
  "ex_float t = (if t \<noteq> [] \<and> list_all is_digit t then Some (real (digits_value t)) else None)"

definition text_211 :: pystr where
  "text_211 = [50, 44, 32, 49, 44, 49]"

definition text_000 :: pystr where
  "text_000 = [48, 44, 48, 44, 48]"

section \<open>Properties of the catalog lookups\<close>

lemma like_percent_all: "like [37] s"
  by (induction s) auto

lemma like_percent_skip: "like p s \<Longrightarrow> like (37 # p) s"
  by (cases s) auto

lemma like_percent_absorb: "like (37 # p) s \<Longrightarrow> like (37 # p) (pre @ s)"
  by (induction pre) auto

lemma like_literal_prefix: "like (s @ [37]) (s @ post)"
proof (induction s)
  case Nil
  show ?case by (simp add: like_percent_all)
next
  case (Cons c s)
  show ?case
  proof (cases "c = 37")
    case True
    have "like (37 # s @ [37]) (s @ post)"
      using Cons.IH by (rule like_percent_skip)
    then show ?thesis using True by simp
  next
    case False
    then show ?thesis using Cons.IH by simp
  qed
qed

text \<open>A name that occurs literally inside a row name is found by the \<open>LIKE\<close> pattern.\<close>

lemma like_self: "like p p"
proof (induction p)
  case Nil
  show ?case by simp
next
  case (Cons a p)
  show ?case
  proof (cases "a = 37")
    case True
    have "like (37 # p) p"
      using Cons.IH by (rule like_percent_skip)
    then show ?thesis using True by simp
  next
    case False
    then show ?thesis using Cons.IH by simp
  qed
qed

lemma c_string_id: "0 \<notin> set s \<Longrightarrow> c_string s = s"
  by (induction s) (simp_all add: c_string_def)

lemma c_string_pattern:
  "c_string ([37] @ s @ [37]) = (if 0 \<in> set s then 37 # c_string s else 37 # s @ [37])"
proof (cases "0 \<in> set s")
  case True
  then have "takeWhile (\<lambda>c. c \<noteq> 0) (s @ [37]) = takeWhile (\<lambda>c. c \<noteq> 0) s"
    by (induction s) auto
  with True show ?thesis by (simp add: c_string_def)
next
  case False
  then have "c_string (s @ [37]) = s @ [37]"
    by (intro c_string_id) simp
  with False show ?thesis by (simp add: c_string_def)
qed

text \<open>A row whose name is the argument is also a row the \<open>LIKE\<close> pattern matches.\<close>

lemma like_contains_self: "like_contains s s"
proof (cases "0 \<in> set s")
  case True
  have "like (37 # c_string s) (c_string s)"
    using like_self by (rule like_percent_skip)
  with True show ?thesis
    unfolding like_contains_def c_string_pattern by simp
next
  case False
  have "like (s @ [37]) (s @ [])" by (rule like_literal_prefix)
  then have "like (37 # s @ [37]) s" by (simp add: like_percent_skip)
  with False show ?thesis
    unfolding like_contains_def c_string_pattern by (simp add: c_string_id)
qed







lemma shortest_None: "shortest rs = None \<longleftrightarrow> rs = []"
  by (induction rs) (auto split: option.splits)

lemma shortest_Some:
  "shortest rs = Some r \<Longrightarrow>
     r \<in> set rs \<and> (\<forall>r' \<in> set rs. length (c_string (name r)) \<le> length (c_string (name r')))"
proof (induction rs arbitrary: r)
  case Nil
  then show ?case by simp
next
  case (Cons a rs)
  show ?case
  proof (cases "shortest rs")
    case None
    then have "rs = []" by (simp add: shortest_None)
    with Cons.prems show ?thesis by simp
  next
    case (Some b)
    from Cons.IH [OF Some]
    have b: "b \<in> set rs" "\<forall>r' \<in> set rs. length (c_string (name b)) \<le> length (c_string (name r'))"
      by auto
    show ?thesis
    proof (cases "length (c_string (name a)) \<le> length (c_string (name b))")
      case True
      with Cons.prems Some have "r = a" by simp
      with True b show ?thesis by fastforce
    next
      case False
      with Cons.prems Some have "r = b" by simp
      with False b show ?thesis by auto
    qed
  qed
qed

lemma find_exact_Some: "find (\<lambda>r. name r = s) cat = Some r \<Longrightarrow> r \<in> set cat \<and> name r = s"
  by (induction cat) (auto split: if_splits)


lemma get_food_in_catalog:
  "get_food cat s = Some r \<Longrightarrow> r \<in> set cat \<and> like_contains s (name r)"
  unfolding get_food_def
  by (auto split: option.splits dest: find_exact_Some shortest_Some simp: like_contains_self)


lemma get_food_exact: "find (\<lambda>r. name r = s) cat = Some r \<Longrightarrow> get_food cat s = Some r"
  unfolding get_food_def by simp

lemma get_food_fallback:
  assumes "find (\<lambda>r. name r = s) cat = None" and "get_food cat s = Some r"
  shows "r \<in> set cat \<and> like_contains s (name r)
         \<and> (\<forall>r' \<in> set cat. like_contains s (name r')
                \<longrightarrow> length (c_string (name r)) \<le> length (c_string (name r')))"
proof -
  from assms have "shortest (filter (\<lambda>r. like_contains s (name r)) cat) = Some r"
    unfolding get_food_def by simp
  from shortest_Some [OF this] show ?thesis by auto
qed

lemma resolve_canonical_alias:
  "map_of syn (strip n) = Some c \<Longrightarrow> resolve_canonical syn cat n = c"
  by (simp add: resolve_canonical_def)

lemma resolve_canonical_no_alias:
  assumes "map_of syn (strip n) = None"
  shows "resolve_canonical syn cat n = strip n"
proof (cases "find (\<lambda>r. name r = strip n) cat")
  case None
  with assms show ?thesis by (simp add: resolve_canonical_def)
next
  case (Some r)
  from find_exact_Some [OF Some] have "name r = strip n" by blast
  with Some assms show ?thesis by (simp add: resolve_canonical_def)
qed



lemma get_food_query_Inr: "get_food_query cat s = Inr v \<Longrightarrow> v = get_food cat s"
  by (auto simp: get_food_query_def get_food_def split: if_splits option.splits)

lemma get_food_query_too_long:
  "encodable s \<Longrightarrow> find (\<lambda>r. name r = s) cat = None \<Longrightarrow> 50000 < utf8_length s + 2 \<Longrightarrow>
     get_food_query cat s = Inl OperationalError"
  by (simp add: get_food_query_def)

section \<open>Properties of the unit converter\<close>

text \<open>
  Claim C3. \<open>to_grams\<close> returns the value unchanged when the unit is \<open>None\<close> or is not one
  of the eight table keys, and otherwise the value times the fixed factor: g 1, kg 1000,
  ml 1, l 1000, the count unit (U+AC1C) 50, the bowl unit 210, the tablespoon unit 13.5,
  the teaspoon unit 4.5. The function is total (it has no failing branch), and the
  \<open>food_name\<close> argument does not influence the result.
\<close>

theorem to_grams_table:
  "to_grams v None fn = v
   \<and> (u \<notin> {unit_g, unit_kg, unit_ml, unit_l, unit_gae, unit_gonggi, unit_keunsul, unit_jageunsul}
        \<longrightarrow> to_grams v (Some u) fn = v)
   \<and> to_grams v (Some unit_g) fn = v * 1
   \<and> to_grams v (Some unit_kg) fn = v * 1000
   \<and> to_grams v (Some unit_ml) fn = v * 1
   \<and> to_grams v (Some unit_l) fn = v * 1000
   \<and> to_grams v (Some unit_gae) fn = v * 50
   \<and> to_grams v (Some unit_gonggi) fn = v * 210
   \<and> to_grams v (Some unit_keunsul) fn = v * 13.5
   \<and> to_grams v (Some unit_jageunsul) fn = v * 4.5
   \<and> to_grams v unit fn = to_grams v unit fn'"
  by (simp add: to_grams_def UNIT_TO_G_def unit_defs)

theorem to_grams_table_witness:
  "[71] \<notin> {unit_g, unit_kg, unit_ml, unit_l, unit_gae, unit_gonggi, unit_keunsul, unit_jageunsul}
   \<and> to_grams 2 (Some [71]) [] = 2
   \<and> to_grams 2 (Some unit_gae) [] = 100"
  using to_grams_table [of 2 "[]" "[71]" None "[]"]
  by (simp add: unit_defs)

section \<open>Properties of the lookup chain\<close>

text \<open>
  Claim C4: for every name the resolver tries the alias table, then an exact catalog
  match, then a substring catalog match (shortest name first), and returns the input
  when no stage matches. \<open>resolve_canonical\<close> misses the third stage: below its
  comment about partial matches stands the exact query only. With no alias and the one
  catalog row U+BC31 U+BBF8 U+BC25, the name U+BC25 is contained in the row name, and
  \<open>resolve_canonical\<close> returns the name unchanged, while the fallback of \<open>get_food\<close>
  finds the row.
\<close>

theorem resolver_substring_counterexample:
  "resolve_canonical [] [ex_rice] text_bap = text_bap
   \<and> get_food [ex_rice] text_bap = Some ex_rice
   \<and> name ex_rice \<noteq> text_bap"
  by (simp add: resolve_canonical_def get_food_def ex_rice_def text_bap_def strip_def
      is_space_def like_contains_def c_string_def ascii_lower_def)

section \<open>Properties of the nutrition scaler\<close>



section \<open>Properties of the segment parser\<close>

lemma parse_segment_Inl: "parse_segment syn cat seg = Inl s \<Longrightarrow> s = seg"
  by (auto simp: parse_segment_def Let_def split: option.splits)

text \<open>The loop sends each non-empty segment either to \<open>items\<close> or to \<open>unresolved\<close>,
  in order.\<close>

lemma parse_loop_char:
  "parse_loop syn cat segs its unres =
     (its @ concat (map (\<lambda>seg. case parse_segment syn cat seg of Inl s \<Rightarrow> [] | Inr it \<Rightarrow> [it])
                     (filter (\<lambda>seg. seg \<noteq> []) segs)),
      unres @ concat (map (\<lambda>seg. case parse_segment syn cat seg of Inl s \<Rightarrow> [s] | Inr it \<Rightarrow> [])
                       (filter (\<lambda>seg. seg \<noteq> []) segs)))"
proof (induction segs arbitrary: its unres)
  case Nil
  show ?case by simp
next
  case (Cons seg segs)
  show ?case
  proof (cases "seg = []")
    case True
    then show ?thesis by (simp add: Cons.IH)
  next
    case False
    then show ?thesis
      by (cases "parse_segment syn cat seg") (simp_all add: Cons.IH)
  qed
qed

lemma split_items_nonempty: "[] \<notin> set (split_items text)"
  by (auto simp: split_items_def Let_def)

lemma filter_nonempty_split_items:
  "filter (\<lambda>seg. seg \<noteq> []) (split_items text) = split_items text"
  using split_items_nonempty [of "text"] by (simp add: filter_id_conv) metis

lemma parse_segment_grams:
  "parse_segment syn cat seg = Inr it \<Longrightarrow>
     grams it = (case extract_amount seg of
                   None \<Rightarrow> 100
                 | Some (v, u) \<Rightarrow> to_grams v u (resolve_canonical syn cat (name_part seg)))"
  by (auto simp: parse_segment_def Let_def split: option.splits)

lemma is_space_points:
  "is_space 32" "\<not> is_space 48165" "\<not> is_space 49" "\<not> is_space 44277" "\<not> is_space 44592"
  "\<not> is_space 120"
  by (simp_all add: is_space_def)

lemma is_digit_points:
  "is_digit 49" "\<not> is_digit 48165" "\<not> is_digit 32" "\<not> is_digit 44277" "\<not> is_digit 120"
  by (simp_all add: is_digit_def digit_val_def decimal_zeros_def)

lemma search_bap_bowl:
  "NUM_UNIT_RE_search text_bap_bowl =
     Some \<lparr>m_start = 2, m_end = 5, group1 = [49], group2 = Some unit_gonggi\<rparr>"
  by (simp add: NUM_UNIT_RE_search_def text_bap_bowl_def is_digit_points Let_def
      match_unit_def UNIT_ALTERNATIVES_def unit_defs unit_lower_def is_space_points)

lemma extract_amount_bap_bowl: "extract_amount text_bap_bowl = Some (1, Some unit_gonggi)"
  by (simp add: extract_amount_def search_bap_bowl float_literal_def digits_value_def
      digit_val_def decimal_zeros_def unit_lower_def unit_defs)

lemma name_part_bap_bowl: "name_part text_bap_bowl = text_bap"
  unfolding name_part_def search_bap_bowl
  by (simp add: text_bap_bowl_def text_bap_def strip_def is_space_points)

lemma split_items_bap_bowl: "split_items text_bap_bowl = [text_bap_bowl]"
  by (simp add: split_items_def text_bap_bowl_def word_and_def strip_def is_space_points)

lemma parse_segment_bap_bowl:
  assumes "(case get_food cat (resolve_canonical syn cat text_bap) of
              None \<Rightarrow> get_food cat text_bap | Some f' \<Rightarrow> Some f') = Some f"
  shows "parse_segment syn cat text_bap_bowl =
           Inr \<lparr>raw_name = text_bap, canonical_name = name f, grams = 210\<rparr>"
proof -
  have "to_grams 1 (Some unit_gonggi) (resolve_canonical syn cat text_bap) = 210"
    by (simp add: to_grams_def UNIT_TO_G_def unit_defs)
  with assms show ?thesis
    by (simp add: parse_segment_def extract_amount_bap_bowl name_part_bap_bowl)
qed

text \<open>
  Claim C1. The items \<open>parse_text\<close> returns are the items of the segments that resolve, in
  segment order; the item of a segment has \<open>grams = to_grams value unit resolved_name\<close>
  when the quantity extractor finds an amount in the segment, and \<open>grams = 100\<close> when it
  finds none. The text U+BC25 SPACE 1 U+ACF5 U+AE30 (rice, one bowl) yields one item
  with \<open>grams = 210\<close> and nothing unresolved, for every pair of tables in which the
  lookup of \<open>parse_text\<close> (resolved name first, then the name text) finds a row for the
  name U+BC25.
\<close>

theorem parse_text_grams:
  "fst (parse_text syn cat text) =
     concat (map (\<lambda>seg. case parse_segment syn cat seg of Inl s \<Rightarrow> [] | Inr it \<Rightarrow> [it])
               (split_items text))
   \<and> (parse_segment syn cat seg = Inr it \<longrightarrow>
        grams it = (case extract_amount seg of
                      None \<Rightarrow> 100
                    | Some (v, u) \<Rightarrow> to_grams v u (resolve_canonical syn cat (name_part seg))))
   \<and> ((case get_food cat (resolve_canonical syn cat text_bap) of
          None \<Rightarrow> get_food cat text_bap | Some f' \<Rightarrow> Some f') = Some f \<longrightarrow>
        parse_text syn cat text_bap_bowl =
          ([\<lparr>raw_name = text_bap, canonical_name = name f, grams = 210\<rparr>], []))"
proof (intro conjI impI)
  show "fst (parse_text syn cat text) =
     concat (map (\<lambda>seg. case parse_segment syn cat seg of Inl s \<Rightarrow> [] | Inr it \<Rightarrow> [it])
               (split_items text))"
    by (simp add: parse_text_def parse_loop_char filter_nonempty_split_items)
next
  assume "parse_segment syn cat seg = Inr it"
  then show "grams it = (case extract_amount seg of
                      None \<Rightarrow> 100
                    | Some (v, u) \<Rightarrow> to_grams v u (resolve_canonical syn cat (name_part seg)))"
    by (rule parse_segment_grams)
next
  assume "(case get_food cat (resolve_canonical syn cat text_bap) of
          None \<Rightarrow> get_food cat text_bap | Some f' \<Rightarrow> Some f') = Some f"
  then have "parse_segment syn cat text_bap_bowl =
           Inr \<lparr>raw_name = text_bap, canonical_name = name f, grams = 210\<rparr>"
    by (rule parse_segment_bap_bowl)
  moreover have "text_bap_bowl \<noteq> []"
    by (simp add: text_bap_bowl_def)
  ultimately show "parse_text syn cat text_bap_bowl =
          ([\<lparr>raw_name = text_bap, canonical_name = name f, grams = 210\<rparr>], [])"
    by (simp add: parse_text_def split_items_bap_bowl)
qed

theorem parse_text_grams_witness:
  "parse_segment ex_synonyms ex_catalog text_bap_bowl =
     Inr \<lparr>raw_name = text_bap, canonical_name = [48177, 48120, 48165], grams = 210\<rparr>
   \<and> extract_amount text_bap_bowl = Some (1, Some unit_gonggi)
   \<and> to_grams 1 (Some unit_gonggi) (resolve_canonical ex_synonyms ex_catalog (name_part text_bap_bowl)) = 210
   \<and> get_food ex_catalog (resolve_canonical ex_synonyms ex_catalog text_bap) = Some ex_rice
   \<and> parse_text ex_synonyms ex_catalog text_bap_bowl =
       ([\<lparr>raw_name = text_bap, canonical_name = [48177, 48120, 48165], grams = 210\<rparr>], [])"
proof -
  have r: "resolve_canonical ex_synonyms ex_catalog text_bap = [48177, 48120, 48165]"
    by (simp add: resolve_canonical_def ex_synonyms_def text_bap_def strip_def is_space_points)
  have g: "get_food ex_catalog [48177, 48120, 48165] = Some ex_rice"
    by (simp add: get_food_def ex_catalog_def ex_egg_def ex_chicken_def ex_rice_def)
  have n: "name ex_rice = [48177, 48120, 48165]"
    by (simp add: ex_rice_def)
  have l: "(case get_food ex_catalog (resolve_canonical ex_synonyms ex_catalog text_bap) of
              None \<Rightarrow> get_food ex_catalog text_bap | Some f' \<Rightarrow> Some f') = Some ex_rice"
    by (simp add: r g)
  have s: "parse_segment ex_synonyms ex_catalog text_bap_bowl =
     Inr \<lparr>raw_name = text_bap, canonical_name = [48177, 48120, 48165], grams = 210\<rparr>"
    using parse_segment_bap_bowl [OF l] by (simp add: n)
  have t: "to_grams 1 (Some unit_gonggi)
             (resolve_canonical ex_synonyms ex_catalog (name_part text_bap_bowl)) = 210"
    by (simp add: to_grams_def UNIT_TO_G_def unit_defs)
  from parse_text_grams [of ex_synonyms ex_catalog text_bap_bowl text_bap_bowl
      "\<lparr>raw_name = text_bap, canonical_name = [48177, 48120, 48165], grams = 210\<rparr>" ex_rice] l
  have "parse_text ex_synonyms ex_catalog text_bap_bowl =
       ([\<lparr>raw_name = text_bap, canonical_name = name ex_rice, grams = 210\<rparr>], [])"
    by blast
  with s t show ?thesis
    by (simp add: extract_amount_bap_bowl r g n)
qed







section \<open>Properties of the macro-ratio parser\<close>

text \<open>
  Claim C9. When the string has three comma-separated parts that \<open>float\<close> accepts,
  \<open>parse_macro_str\<close> fails with \<open>ValueError\<close> if their sum is not positive, and
  otherwise succeeds with each component divided by the sum, so that the three ratios
  add up to 1 (over the reals).
\<close>

theorem parse_macro_str_normalises:
  assumes "map strip (split_on (\<lambda>c. c = 44) s) = [a, b, c]"
    and "pyfloat a = Some x" and "pyfloat b = Some y" and "pyfloat c = Some z"
  shows "(x + y + z \<le> 0 \<longrightarrow>
            parse_macro_str pyfloat s = Inl (ValueError msg_macro_positive))
         \<and> (0 < x + y + z \<longrightarrow>
            parse_macro_str pyfloat s =
              Inr [(key_carb, x / (x + y + z)), (key_protein, y / (x + y + z)),
                   (key_fat, z / (x + y + z))]
            \<and> x / (x + y + z) + y / (x + y + z) + z / (x + y + z) = 1)"
proof (intro conjI impI)
  assume "x + y + z \<le> 0"
  with assms show "parse_macro_str pyfloat s = Inl (ValueError msg_macro_positive)"
    by (simp add: parse_macro_str_def Let_def)
next
  assume "0 < x + y + z"
  with assms show "parse_macro_str pyfloat s =
              Inr [(key_carb, x / (x + y + z)), (key_protein, y / (x + y + z)),
                   (key_fat, z / (x + y + z))]"
    by (simp add: parse_macro_str_def Let_def)
next
  assume pos: "0 < x + y + z"
  have "x / (x + y + z) + y / (x + y + z) + z / (x + y + z) = (x + y + z) / (x + y + z)"
    by (simp only: add_divide_distrib)
  also from pos have "\<dots> = 1"
    by simp
  finally show "x / (x + y + z) + y / (x + y + z) + z / (x + y + z) = 1" .
qed

theorem parse_macro_str_normalises_witness:
  "map strip (split_on (\<lambda>c. c = 44) text_211) = [[50], [49], [49]]
   \<and> ex_float [50] = Some 2 \<and> ex_float [49] = Some 1
   \<and> parse_macro_str ex_float text_211 =
       Inr [(key_carb, 2 / (2 + 1 + 1)), (key_protein, 1 / (2 + 1 + 1)), (key_fat, 1 / (2 + 1 + 1))]
   \<and> map strip (split_on (\<lambda>c. c = 44) text_000) = [[48], [48], [48]]
   \<and> ex_float [48] = Some 0
   \<and> parse_macro_str ex_float text_000 = Inl (ValueError msg_macro_positive)"
proof -
  have sp: "\<not> is_space 50" "\<not> is_space 49" "\<not> is_space 48" "is_space 32"
    by (simp_all add: is_space_def)
  have a: "map strip (split_on (\<lambda>c. c = 44) text_211) = [[50], [49], [49]]"
    by (simp add: text_211_def strip_def sp)
  have b: "map strip (split_on (\<lambda>c. c = 44) text_000) = [[48], [48], [48]]"
    by (simp add: text_000_def strip_def sp)
  have d: "digit_val 50 = Some 2" "digit_val 49 = Some 1" "digit_val 48 = Some 0"
    by (simp_all add: digit_val_def decimal_zeros_def)
  have f: "ex_float [50] = Some 2" "ex_float [49] = Some 1" "ex_float [48] = Some 0"
    by (simp_all add: ex_float_def is_digit_def digits_value_def d)
  have p: "(0::real) < 2 + 1 + 1" and n: "(0::real) + 0 + 0 \<le> 0"
    by simp_all
  from parse_macro_str_normalises [of text_211 "[50]" "[49]" "[49]" ex_float 2 1 1] a f p
  have r1: "parse_macro_str ex_float text_211 =
       Inr [(key_carb, 2 / (2 + 1 + 1)), (key_protein, 1 / (2 + 1 + 1)), (key_fat, 1 / (2 + 1 + 1))]"
    by blast
  from parse_macro_str_normalises [of text_000 "[48]" "[48]" "[48]" ex_float 0 0 0] b f n
  have r2: "parse_macro_str ex_float text_000 = Inl (ValueError msg_macro_positive)"
    by blast
  from a b f r1 r2 show ?thesis
    by blast
qed

section \<open>Properties of the meal recommender\<close>

subsection \<open>The scan for the protein source\<close>

lemma pick_loop_None: "pick_loop cat cs = None \<longleftrightarrow> (\<forall>x \<in> set cs. get_food cat x = None)"
  by (induction cs) (auto split: option.splits)

lemma pick_loop_Some:
  "pick_loop cat cs = Some c \<longleftrightarrow>
     (\<exists>pre post. cs = pre @ c # post \<and> (\<forall>x \<in> set pre. get_food cat x = None)
                  \<and> get_food cat c \<noteq> None)"
proof (induction cs)
  case Nil
  show ?case by simp
next
  case (Cons a cs)
  show ?case
  proof (cases "get_food cat a")
    case None
    have "(\<exists>pre post. a # cs = pre @ c # post \<and> (\<forall>x \<in> set pre. get_food cat x = None)
                  \<and> get_food cat c \<noteq> None)
          \<longleftrightarrow> (\<exists>pre post. cs = pre @ c # post \<and> (\<forall>x \<in> set pre. get_food cat x = None)
                  \<and> get_food cat c \<noteq> None)" (is "?L \<longleftrightarrow> ?R")
    proof
      assume ?L
      then obtain pre post where p: "a # cs = pre @ c # post"
        "\<forall>x \<in> set pre. get_food cat x = None" "get_food cat c \<noteq> None"
        by blast
      with None have "pre \<noteq> []" by (cases pre) auto
      then obtain pre' where "pre = a # pre'" using p(1) by (cases pre) auto
      with p show ?R by auto
    next
      assume ?R
      then obtain pre post where p: "cs = pre @ c # post"
        "\<forall>x \<in> set pre. get_food cat x = None" "get_food cat c \<noteq> None"
        by blast
      then have "a # cs = (a # pre) @ c # post" "\<forall>x \<in> set (a # pre). get_food cat x = None"
        using None by auto
      with p(3) show ?L by blast
    qed
    with None Cons.IH show ?thesis by simp
  next
    case (Some info)
    have "(\<exists>pre post. a # cs = pre @ c # post \<and> (\<forall>x \<in> set pre. get_food cat x = None)
                  \<and> get_food cat c \<noteq> None) \<longleftrightarrow> a = c" (is "?L \<longleftrightarrow> _")
    proof
      assume ?L
      then obtain pre post where p: "a # cs = pre @ c # post"
        "\<forall>x \<in> set pre. get_food cat x = None" "get_food cat c \<noteq> None"
        by blast
      show "a = c"
      proof (cases pre)
        case Nil
        with p(1) show ?thesis by simp
      next
        case (Cons b pre')
        with p(1) have "b = a" by simp
        with Cons p(2) Some show ?thesis by simp
      qed
    next
      assume "a = c"
      with Some have "a # cs = [] @ c # cs" "\<forall>x \<in> set []. get_food cat x = None"
        "get_food cat c \<noteq> None"
        by auto
      then show ?L by blast
    qed
    with Some show ?thesis by auto
  qed
qed

lemma protein_slot_cases:
  "(protein_slot cat avoid prefer ppm st = Inr st
      \<and> (pick_loop cat (protein_candidates avoid prefer) = None
          \<or> pick_loop cat (protein_candidates avoid prefer) = Some []))
   \<or> (\<exists>c info. pick_loop cat (protein_candidates avoid prefer) = Some c \<and> c \<noteq> []
         \<and> get_food cat c = Some info
         \<and> protein_slot cat avoid prefer ppm st =
             Inr (add_portion
                    (nutrition_for cat c (min 200 (max 50 (ppm / max (protein info) 0.1 * 100))))
                    st))"
proof (cases "pick_loop cat (protein_candidates avoid prefer)")
  case None
  then show ?thesis by (simp add: protein_slot_def)
next
  case (Some c)
  show ?thesis
  proof (cases "c = []")
    case True
    with Some show ?thesis by (simp add: protein_slot_def)
  next
    case False
    from Some have "get_food cat c \<noteq> None"
      unfolding pick_loop_Some by blast
    then obtain info where "get_food cat c = Some info" by auto
    with Some False show ?thesis by (simp add: protein_slot_def Let_def)
  qed
qed

lemma protein_slot_no_error: "\<exists>st'. protein_slot cat avoid prefer ppm st = Inr st'"
  using protein_slot_cases [of cat avoid "prefer" ppm st] by blast

subsection \<open>The candidate loops\<close>

lemma carb_body_unfold:
  assumes "carb \<notin> set avoid" and "get_food cat carb = Some info"
  shows "carb_body cat avoid lower per_meal carb st =
     (if (if total_kcal st < lower then max (lower - total_kcal st) 0
          else per_meal - total_kcal st) \<le> 0
      then Break st
      else if lower \<le> total_kcal (add_portion (nutrition_for cat carb
                (min 250 (max 80 ((if total_kcal st < lower then max (lower - total_kcal st) 0
                                   else per_meal - total_kcal st)
                                  / max (kcal info) (1 / 1000000) * 100)))) st)
      then Break (add_portion (nutrition_for cat carb
                (min 250 (max 80 ((if total_kcal st < lower then max (lower - total_kcal st) 0
                                   else per_meal - total_kcal st)
                                  / max (kcal info) (1 / 1000000) * 100)))) st)
      else Continue (add_portion (nutrition_for cat carb
                (min 250 (max 80 ((if total_kcal st < lower then max (lower - total_kcal st) 0
                                   else per_meal - total_kcal st)
                                  / max (kcal info) (1 / 1000000) * 100)))) st))"
  unfolding carb_body_def Let_def using assms by (simp only: if_False option.case)

lemma carb_body_unusable:
  assumes "carb \<in> set avoid \<or> get_food cat carb = None"
  shows "carb_body cat avoid lower per_meal carb st = Continue st"
proof (cases "carb \<in> set avoid")
  case True
  then show ?thesis unfolding carb_body_def by (simp only: if_True)
next
  case False
  with assms have "get_food cat carb = None" by blast
  with False show ?thesis unfolding carb_body_def by (simp only: if_False option.case)
qed

lemma carb_body_cases:
  "step_state (carb_body cat avoid lower per_meal carb st) = st
   \<or> (\<exists>g. 80 \<le> g \<and> step_state (carb_body cat avoid lower per_meal carb st)
                        = add_portion (nutrition_for cat carb g) st)"
proof (cases "carb \<in> set avoid \<or> get_food cat carb = None")
  case True
  then show ?thesis by (simp add: carb_body_unusable)
next
  case False
  then obtain info where i: "carb \<notin> set avoid" "get_food cat carb = Some info" by auto
  define g where "g = min 250 (max 80 ((if total_kcal st < lower then max (lower - total_kcal st) 0
                                   else per_meal - total_kcal st)
                                  / max (kcal info) (1 / 1000000) * 100))"
  have g80: "80 \<le> g" unfolding g_def by simp
  have "step_state (carb_body cat avoid lower per_meal carb st) = st
        \<or> step_state (carb_body cat avoid lower per_meal carb st)
            = add_portion (nutrition_for cat carb g) st"
    unfolding carb_body_unfold [OF i] g_def [symmetric]
    by (simp only: step_state.simps split: if_split) blast
  with g80 show ?thesis by blast
qed

lemma fat_body_unfold:
  assumes "fatname \<notin> set avoid" and "get_food cat fatname = Some info"
  shows "fat_body cat avoid lower per_meal fatname st =
     (if lower \<le> total_kcal (add_portion (nutrition_for cat fatname
                (min 100 (max 30 ((per_meal - total_kcal st)
                                  / max (kcal info) (1 / 1000000) * 100)))) st)
      then Break (add_portion (nutrition_for cat fatname
                (min 100 (max 30 ((per_meal - total_kcal st)
                                  / max (kcal info) (1 / 1000000) * 100)))) st)
      else Continue (add_portion (nutrition_for cat fatname
                (min 100 (max 30 ((per_meal - total_kcal st)
                                  / max (kcal info) (1 / 1000000) * 100)))) st))"
  unfolding fat_body_def Let_def using assms by (simp only: if_False option.case)

lemma fat_body_unusable:
  assumes "fatname \<in> set avoid \<or> get_food cat fatname = None"
  shows "fat_body cat avoid lower per_meal fatname st = Continue st"
proof (cases "fatname \<in> set avoid")
  case True
  then show ?thesis unfolding fat_body_def by (simp only: if_True)
next
  case False
  with assms have "get_food cat fatname = None" by blast
  with False show ?thesis unfolding fat_body_def by (simp only: if_False option.case)
qed

lemma fat_body_cases:
  "step_state (fat_body cat avoid lower per_meal fatname st) = st
   \<or> (\<exists>g. 30 \<le> g \<and> step_state (fat_body cat avoid lower per_meal fatname st)
                        = add_portion (nutrition_for cat fatname g) st)"
proof (cases "fatname \<in> set avoid \<or> get_food cat fatname = None")
  case True
  then show ?thesis by (simp add: fat_body_unusable)
next
  case False
  then obtain info where i: "fatname \<notin> set avoid" "get_food cat fatname = Some info" by auto
  define g where "g = min 100 (max 30 ((per_meal - total_kcal st)
                                  / max (kcal info) (1 / 1000000) * 100))"
  have g30: "30 \<le> g" unfolding g_def by simp
  have "step_state (fat_body cat avoid lower per_meal fatname st)
            = add_portion (nutrition_for cat fatname g) st"
    unfolding fat_body_unfold [OF i] g_def [symmetric]
    by (simp only: step_state.simps split: if_split) blast
  with g30 show ?thesis by blast
qed

lemma carb_loop_step:
  "carb_loop cat avoid lower per_meal (carb # rest) st =
     (case carb_body cat avoid lower per_meal carb st of
        Break st' \<Rightarrow> st'
      | Continue st' \<Rightarrow> carb_loop cat avoid lower per_meal rest st')"
  by simp

lemma portions_add_portion: "portions (add_portion fp st) = portions st @ [fp]"
  by (simp add: add_portion_def)

lemma carb_body_prefix:
  "\<exists>extra. portions (step_state (carb_body cat avoid lower per_meal carb st)) = portions st @ extra"
  using carb_body_cases [of cat avoid lower per_meal carb st]
  by (auto simp: portions_add_portion)

lemma fat_body_prefix:
  "\<exists>extra. portions (step_state (fat_body cat avoid lower per_meal fatname st)) = portions st @ extra"
  using fat_body_cases [of cat avoid lower per_meal fatname st]
  by (auto simp: portions_add_portion)

lemma carb_loop_prefix:
  "\<exists>extra. portions (carb_loop cat avoid lower per_meal cs st) = portions st @ extra"
proof (induction cs arbitrary: st)
  case Nil
  show ?case by simp
next
  case (Cons c cs)
  obtain e1 where e1: "portions (step_state (carb_body cat avoid lower per_meal c st))
                         = portions st @ e1"
    using carb_body_prefix by blast
  show ?case
  proof (cases "carb_body cat avoid lower per_meal c st")
    case (Break st')
    with e1 show ?thesis by simp
  next
    case (Continue st')
    from Cons.IH [of st'] obtain e2 where
      "portions (carb_loop cat avoid lower per_meal cs st') = portions st' @ e2" by blast
    with Continue e1 show ?thesis by simp
  qed
qed

lemma fat_loop_prefix:
  "\<exists>extra. portions (fat_loop cat avoid lower per_meal cs st) = portions st @ extra"
proof (induction cs arbitrary: st)
  case Nil
  show ?case by simp
next
  case (Cons c cs)
  obtain e1 where e1: "portions (step_state (fat_body cat avoid lower per_meal c st))
                         = portions st @ e1"
    using fat_body_prefix by blast
  show ?case
  proof (cases "fat_body cat avoid lower per_meal c st")
    case (Break st')
    with e1 show ?thesis by simp
  next
    case (Continue st')
    from Cons.IH [of st'] obtain e2 where
      "portions (fat_loop cat avoid lower per_meal cs st') = portions st' @ e2" by blast
    with Continue e1 show ?thesis by simp
  qed
qed

lemma slots_prefix:
  "\<exists>extra. portions (fat_slot cat avoid lower per_meal
                       (carb_slot cat avoid prefer lower per_meal st)) = portions st @ extra"
proof -
  obtain e1 where e1: "portions (carb_slot cat avoid prefer lower per_meal st) = portions st @ e1"
    unfolding carb_slot_def using carb_loop_prefix by blast
  obtain e2 where "portions (fat_slot cat avoid lower per_meal
                       (carb_slot cat avoid prefer lower per_meal st))
                   = portions (carb_slot cat avoid prefer lower per_meal st) @ e2"
    unfolding fat_slot_def using fat_loop_prefix by (metis append_Nil2)
  with e1 show ?thesis by simp
qed

text \<open>Below the lower bound, the carbohydrate loop serves the first usable candidate.\<close>

lemma carb_body_usable:
  assumes "carb \<notin> set avoid" and "get_food cat carb \<noteq> None" and "total_kcal st < lower"
  shows "\<exists>fp. portions (step_state (carb_body cat avoid lower per_meal carb st))
               = portions st @ [fp]"
proof -
  from assms(2) obtain info where info: "get_food cat carb = Some info" by auto
  define g where "g = min 250 (max 80 ((if total_kcal st < lower then max (lower - total_kcal st) 0
                                   else per_meal - total_kcal st)
                                  / max (kcal info) (1 / 1000000) * 100))"
  from assms(3)
  have r: "\<not> (if total_kcal st < lower then max (lower - total_kcal st) 0
              else per_meal - total_kcal st) \<le> 0"
    by simp
  have "step_state (carb_body cat avoid lower per_meal carb st)
          = add_portion (nutrition_for cat carb g) st"
    unfolding carb_body_unfold [OF assms(1) info] g_def [symmetric]
    using r by (simp only: if_False step_state.simps split: if_split) blast
  then show ?thesis by (simp add: portions_add_portion)
qed

lemma carb_loop_adds:
  assumes "total_kcal st < lower"
    and "\<exists>c \<in> set cs. c \<notin> set avoid \<and> get_food cat c \<noteq> None"
  shows "\<exists>fp extra. portions (carb_loop cat avoid lower per_meal cs st) = portions st @ fp # extra"
  using assms
proof (induction cs)
  case Nil
  then show ?case by simp
next
  case (Cons c cs)
  show ?case
  proof (cases "c \<notin> set avoid \<and> get_food cat c \<noteq> None")
    case True
    with Cons.prems(1) obtain fp where
      fp: "portions (step_state (carb_body cat avoid lower per_meal c st)) = portions st @ [fp]"
      using carb_body_usable by blast
    show ?thesis
    proof (cases "carb_body cat avoid lower per_meal c st")
      case (Break st')
      with fp show ?thesis by simp
    next
      case (Continue st')
      obtain e where "portions (carb_loop cat avoid lower per_meal cs st') = portions st' @ e"
        using carb_loop_prefix by blast
      with Continue fp show ?thesis by simp
    qed
  next
    case False
    then have "carb_body cat avoid lower per_meal c st = Continue st"
      using carb_body_unusable by blast
    moreover from False Cons.prems(2)
    have "\<exists>c \<in> set cs. c \<notin> set avoid \<and> get_food cat c \<noteq> None" by auto
    ultimately show ?thesis
      using Cons.IH Cons.prems(1) by simp
  qed
qed

subsection \<open>Totals stay non-negative\<close>

lemma nutrition_for_nonneg:
  assumes "\<forall>r \<in> set cat. 0 \<le> kcal r \<and> 0 \<le> protein r \<and> 0 \<le> fat r \<and> 0 \<le> carbs r"
    and "0 \<le> g"
  shows "0 \<le> p_kcal (nutrition_for cat nm g) \<and> 0 \<le> p_protein (nutrition_for cat nm g)
         \<and> 0 \<le> p_fat (nutrition_for cat nm g) \<and> 0 \<le> p_carbs (nutrition_for cat nm g)"
proof (cases "get_food cat nm")
  case None
  then show ?thesis by (simp add: nutrition_for_def)
next
  case (Some f)
  then have "f \<in> set cat" by (simp add: get_food_in_catalog)
  with assms(1) have "0 \<le> kcal f" "0 \<le> protein f" "0 \<le> fat f" "0 \<le> carbs f" by auto
  with assms(2) Some show ?thesis by (simp add: nutrition_for_def Let_def)
qed

lemma add_portion_nonneg:
  assumes "\<forall>r \<in> set cat. 0 \<le> kcal r \<and> 0 \<le> protein r \<and> 0 \<le> fat r \<and> 0 \<le> carbs r"
    and "0 \<le> g"
    and "0 \<le> total_kcal st \<and> 0 \<le> total_p st \<and> 0 \<le> total_f st \<and> 0 \<le> total_c st"
  shows "0 \<le> total_kcal (add_portion (nutrition_for cat nm g) st)
         \<and> 0 \<le> total_p (add_portion (nutrition_for cat nm g) st)
         \<and> 0 \<le> total_f (add_portion (nutrition_for cat nm g) st)
         \<and> 0 \<le> total_c (add_portion (nutrition_for cat nm g) st)"
  using nutrition_for_nonneg [OF assms(1,2), of nm] assms(3)
  by (simp add: add_portion_def)

lemma carb_body_nonneg:
  assumes "\<forall>r \<in> set cat. 0 \<le> kcal r \<and> 0 \<le> protein r \<and> 0 \<le> fat r \<and> 0 \<le> carbs r"
    and "0 \<le> total_kcal st \<and> 0 \<le> total_p st \<and> 0 \<le> total_f st \<and> 0 \<le> total_c st"
  shows "0 \<le> total_kcal (step_state (carb_body cat avoid lower per_meal c st))
         \<and> 0 \<le> total_p (step_state (carb_body cat avoid lower per_meal c st))
         \<and> 0 \<le> total_f (step_state (carb_body cat avoid lower per_meal c st))
         \<and> 0 \<le> total_c (step_state (carb_body cat avoid lower per_meal c st))"
proof -
  from carb_body_cases [of cat avoid lower per_meal c st]
  consider "step_state (carb_body cat avoid lower per_meal c st) = st"
    | g where "80 \<le> g" "step_state (carb_body cat avoid lower per_meal c st)
                          = add_portion (nutrition_for cat c g) st"
    by blast
  then show ?thesis
  proof cases
    case 1
    with assms(2) show ?thesis by simp
  next
    case 2
    then have "0 \<le> g" by simp
    from add_portion_nonneg [OF assms(1) this assms(2), of c] 2(2) show ?thesis by simp
  qed
qed

lemma fat_body_nonneg:
  assumes "\<forall>r \<in> set cat. 0 \<le> kcal r \<and> 0 \<le> protein r \<and> 0 \<le> fat r \<and> 0 \<le> carbs r"
    and "0 \<le> total_kcal st \<and> 0 \<le> total_p st \<and> 0 \<le> total_f st \<and> 0 \<le> total_c st"
  shows "0 \<le> total_kcal (step_state (fat_body cat avoid lower per_meal c st))
         \<and> 0 \<le> total_p (step_state (fat_body cat avoid lower per_meal c st))
         \<and> 0 \<le> total_f (step_state (fat_body cat avoid lower per_meal c st))
         \<and> 0 \<le> total_c (step_state (fat_body cat avoid lower per_meal c st))"
proof -
  from fat_body_cases [of cat avoid lower per_meal c st]
  consider "step_state (fat_body cat avoid lower per_meal c st) = st"
    | g where "30 \<le> g" "step_state (fat_body cat avoid lower per_meal c st)
                          = add_portion (nutrition_for cat c g) st"
    by blast
  then show ?thesis
  proof cases
    case 1
    with assms(2) show ?thesis by simp
  next
    case 2
    then have "0 \<le> g" by simp
    from add_portion_nonneg [OF assms(1) this assms(2), of c] 2(2) show ?thesis by simp
  qed
qed

lemma carb_loop_nonneg:
  assumes "\<forall>r \<in> set cat. 0 \<le> kcal r \<and> 0 \<le> protein r \<and> 0 \<le> fat r \<and> 0 \<le> carbs r"
    and "0 \<le> total_kcal st \<and> 0 \<le> total_p st \<and> 0 \<le> total_f st \<and> 0 \<le> total_c st"
  shows "0 \<le> total_kcal (carb_loop cat avoid lower per_meal cs st)
         \<and> 0 \<le> total_p (carb_loop cat avoid lower per_meal cs st)
         \<and> 0 \<le> total_f (carb_loop cat avoid lower per_meal cs st)
         \<and> 0 \<le> total_c (carb_loop cat avoid lower per_meal cs st)"
  using assms(2)
proof (induction cs arbitrary: st)
  case Nil
  then show ?case by simp
next
  case (Cons c cs)
  note b = carb_body_nonneg [OF assms(1) Cons.prems, of avoid lower per_meal c]
  show ?case
  proof (cases "carb_body cat avoid lower per_meal c st")
    case (Break st')
    with b show ?thesis by simp
  next
    case (Continue st')
    with b have "0 \<le> total_kcal st' \<and> 0 \<le> total_p st' \<and> 0 \<le> total_f st' \<and> 0 \<le> total_c st'"
      by simp
    from Cons.IH [OF this] Continue show ?thesis by simp
  qed
qed

lemma fat_loop_nonneg:
  assumes "\<forall>r \<in> set cat. 0 \<le> kcal r \<and> 0 \<le> protein r \<and> 0 \<le> fat r \<and> 0 \<le> carbs r"
    and "0 \<le> total_kcal st \<and> 0 \<le> total_p st \<and> 0 \<le> total_f st \<and> 0 \<le> total_c st"
  shows "0 \<le> total_kcal (fat_loop cat avoid lower per_meal cs st)
         \<and> 0 \<le> total_p (fat_loop cat avoid lower per_meal cs st)
         \<and> 0 \<le> total_f (fat_loop cat avoid lower per_meal cs st)
         \<and> 0 \<le> total_c (fat_loop cat avoid lower per_meal cs st)"
  using assms(2)
proof (induction cs arbitrary: st)
  case Nil
  then show ?case by simp
next
  case (Cons c cs)
  note b = fat_body_nonneg [OF assms(1) Cons.prems, of avoid lower per_meal c]
  show ?case
  proof (cases "fat_body cat avoid lower per_meal c st")
    case (Break st')
    with b show ?thesis by simp
  next
    case (Continue st')
    with b have "0 \<le> total_kcal st' \<and> 0 \<le> total_p st' \<and> 0 \<le> total_f st' \<and> 0 \<le> total_c st'"
      by simp
    from Cons.IH [OF this] Continue show ?thesis by simp
  qed
qed

lemma protein_slot_nonneg:
  assumes "\<forall>r \<in> set cat. 0 \<le> kcal r \<and> 0 \<le> protein r \<and> 0 \<le> fat r \<and> 0 \<le> carbs r"
    and "protein_slot cat avoid prefer ppm empty_meal = Inr st"
  shows "0 \<le> total_kcal st \<and> 0 \<le> total_p st \<and> 0 \<le> total_f st \<and> 0 \<le> total_c st"
proof -
  have e: "0 \<le> total_kcal empty_meal \<and> 0 \<le> total_p empty_meal \<and> 0 \<le> total_f empty_meal
           \<and> 0 \<le> total_c empty_meal"
    by (simp add: empty_meal_def)
  have g: "\<And>x::real. 50 \<le> min 200 (max 50 x)" by simp
  have g: "\<And>x::real. 0 \<le> min 200 (max 50 x)" by simp
  consider (skip) "protein_slot cat avoid prefer ppm empty_meal = Inr empty_meal"
    | (add) c x where "protein_slot cat avoid prefer ppm empty_meal
                         = Inr (add_portion (nutrition_for cat c (min 200 (max 50 x))) empty_meal)"
    using protein_slot_cases [of cat avoid "prefer" ppm empty_meal] by blast
  then show ?thesis
  proof cases
    case skip
    with assms(2) e show ?thesis by simp
  next
    case add
    with assms(2) have "st = add_portion (nutrition_for cat c (min 200 (max 50 x))) empty_meal"
      by simp
    with add_portion_nonneg [OF assms(1) g e, of c x] show ?thesis by simp
  qed
qed

subsection \<open>Candidates the loops pass over, and the first one served\<close>

lemma carb_loop_skip:
  "\<forall>n \<in> set xs. n \<in> set avoid \<or> get_food cat n = None \<Longrightarrow>
     carb_loop cat avoid lower per_meal (xs @ ys) st = carb_loop cat avoid lower per_meal ys st"
  by (induction xs) (simp_all add: carb_body_unusable)

lemma carb_loop_all_unusable:
  "\<forall>n \<in> set cs. n \<in> set avoid \<or> get_food cat n = None \<Longrightarrow>
     carb_loop cat avoid lower per_meal cs st = st"
  using carb_loop_skip [of cs avoid cat lower per_meal "[]" st] by simp

lemma fat_loop_all_unusable:
  "\<forall>n \<in> set cs. n \<in> set avoid \<or> get_food cat n = None \<Longrightarrow>
     fat_loop cat avoid lower per_meal cs st = st"
  by (induction cs) (simp_all add: fat_body_unusable)

lemma carb_body_first:
  assumes "c \<notin> set avoid" and "get_food cat c = Some info" and "0 < lower"
  shows "step_state (carb_body cat avoid lower per_meal c empty_meal) =
           add_portion
             (nutrition_for cat c (min 250 (max 80 (lower / max (kcal info) (1 / 1000000) * 100))))
             empty_meal"
proof -
  from assms(3)
  have r: "(if total_kcal empty_meal < lower then max (lower - total_kcal empty_meal) 0
            else per_meal - total_kcal empty_meal) = lower"
    by (simp add: empty_meal_def)
  from assms(3) have n: "\<not> lower \<le> 0" by simp
  show ?thesis
    unfolding carb_body_unfold [OF assms(1,2)] r
    using n by (simp only: if_False step_state.simps split: if_split) blast
qed

lemma carb_loop_first:
  assumes "cs = pre @ c # post"
    and "\<forall>x \<in> set pre. x \<in> set avoid \<or> get_food cat x = None"
    and "c \<notin> set avoid" and "get_food cat c = Some info" and "0 < lower"
  shows "\<exists>rest. portions (carb_loop cat avoid lower per_meal cs empty_meal) =
           nutrition_for cat c (min 250 (max 80 (lower / max (kcal info) (1 / 1000000) * 100)))
           # rest"
proof -
  define fp where
    "fp = nutrition_for cat c (min 250 (max 80 (lower / max (kcal info) (1 / 1000000) * 100)))"
  have b: "step_state (carb_body cat avoid lower per_meal c empty_meal)
             = add_portion fp empty_meal"
    unfolding fp_def using assms(3,4,5) by (rule carb_body_first)
  have p: "portions (add_portion fp empty_meal) = [fp]"
    by (simp add: portions_add_portion empty_meal_def)
  have "\<exists>rest. portions (carb_loop cat avoid lower per_meal (c # post) empty_meal) = fp # rest"
  proof (cases "carb_body cat avoid lower per_meal c empty_meal")
    case (Break st')
    with b p show ?thesis by simp
  next
    case (Continue st')
    obtain e where "portions (carb_loop cat avoid lower per_meal post st') = portions st' @ e"
      using carb_loop_prefix by blast
    with Continue b p show ?thesis by simp
  qed
  then show ?thesis
    unfolding assms(1) carb_loop_skip [OF assms(2)] fp_def .
qed

subsection \<open>The meal loop\<close>

lemma meal_loop_replicate:
  assumes "one_meal cat avoid prefer lower per_meal ppm = Inr plan"
  shows "meal_loop cat avoid prefer lower per_meal ppm k plans = Inr (plans @ replicate k plan)"
proof (induction k arbitrary: plans)
  case 0
  show ?case by simp
next
  case (Suc k)
  have "plans @ replicate (Suc k) plan = (plans @ [plan]) @ replicate k plan"
    by simp
  with Suc [of "plans @ [plan]"] assms show ?case
    by (simp only: meal_loop.simps sum.case)
qed

lemma one_meal_result:
  assumes "protein_slot cat avoid prefer ppm empty_meal = Inr st1"
  shows "one_meal cat avoid prefer lower per_meal ppm =
           Inr (plan_of (fat_slot cat avoid lower per_meal
                           (carb_slot cat avoid prefer lower per_meal st1)))"
  using assms by (simp add: one_meal_def)

lemma recommend_meals_replicate:
  assumes "meals \<noteq> 0"
    and "one_meal cat avoid prefer (tk / real_of_int meals * 0.9) (tk / real_of_int meals)
           (max (1.6 * bw) (tk * (case map_of mr key_protein of Some r \<Rightarrow> r | None \<Rightarrow> 0.3) / 4)
              / real_of_int meals) = Inr plan"
  shows "recommend_meals cat tk mr bw meals avoid prefer = Inr (replicate (nat meals) plan)"
  unfolding recommend_meals_def Let_def
  using assms(1) meal_loop_replicate [OF assms(2), of "nat meals" "[]"]
  by (simp only: if_False append_Nil)

lemma items_plan_of: "items (plan_of st) = portions st"
  by (simp add: plan_of_def)

lemma pool_facts:
  "set FAT_HELPERS \<subseteq> set PROTEIN_FOODS" "[] \<notin> set PROTEIN_FOODS"
  by (simp_all add: FAT_HELPERS_def PROTEIN_FOODS_def)

text \<open>
  Claim C10. For a non-zero meal count the result is the same plan repeated: every pass of
  the meal loop starts from fresh totals and reads the same targets, tables and name
  lists, so all plans of the returned list are equal (portions, order and totals).
\<close>

theorem plans_identical:
  assumes "meals \<noteq> 0"
  shows "\<exists>plan. recommend_meals cat tk mr bw meals avoid prefer = Inr (replicate (nat meals) plan)"
proof -
  obtain st1 where "protein_slot cat avoid prefer
      (max (1.6 * bw) (tk * (case map_of mr key_protein of Some r \<Rightarrow> r | None \<Rightarrow> 0.3) / 4)
         / real_of_int meals) empty_meal = Inr st1"
    using protein_slot_no_error by blast
  from recommend_meals_replicate [OF assms one_meal_result [OF this]]
  show ?thesis by blast
qed

theorem plans_identical_witness:
  "(3::int) \<noteq> 0
   \<and> (\<exists>plan. recommend_meals ex_catalog 1800 [] 70 3 [] [] = Inr (replicate (nat 3) plan))"
  using plans_identical [of 3 ex_catalog 1800 "[]" 70 "[]" "[]"] by simp

text \<open>
  Claim C8. When every name of the protein pool and every preferred name is in \<open>avoid\<close>,
  the protein slot returns the meal unchanged and raises nothing, and the call returns
  its plans. The carbohydrate slot still runs: it passes over the preferred names and
  scans the carbohydrate pool, and for a positive target it serves the first pool name
  that is not avoided and found, with \<open>min 250 (max 80 (lower / max kcal 1e-6 * 100))\<close>
  grams. The fat-helper slot, entered when the total is below the lower bound, passes
  over its three names, which all belong to the protein pool and so are avoided; each
  plan is therefore what the carbohydrate loop builds from empty totals.
\<close>

theorem protein_slot_skipped:
  assumes "set PROTEIN_FOODS \<union> set prefer \<subseteq> set avoid" and "meals \<noteq> 0"
  shows "protein_slot cat avoid prefer ppm st = Inr st
         \<and> carb_slot cat avoid prefer lower per_meal st =
             carb_loop cat avoid lower per_meal CARB_FOODS st
         \<and> fat_loop cat avoid lower per_meal FAT_HELPERS st = st
         \<and> fat_slot cat avoid lower per_meal st = st
         \<and> recommend_meals cat tk mr bw meals avoid prefer =
             Inr (replicate (nat meals)
                    (plan_of (carb_loop cat avoid (tk / real_of_int meals * 0.9)
                                (tk / real_of_int meals) CARB_FOODS empty_meal)))
         \<and> (0 < tk \<and> 0 < meals \<and> CARB_FOODS = pre @ c # post
              \<and> (\<forall>x \<in> set pre. x \<in> set avoid \<or> get_food cat x = None)
              \<and> c \<notin> set avoid \<and> get_food cat c = Some info
             \<longrightarrow> (\<exists>rest. portions (carb_loop cat avoid (tk / real_of_int meals * 0.9)
                                    (tk / real_of_int meals) CARB_FOODS empty_meal) =
                    nutrition_for cat c
                      (min 250 (max 80 (tk / real_of_int meals * 0.9
                                          / max (kcal info) (1 / 1000000) * 100)))
                    # rest))"
proof -
  from assms(1) have "protein_candidates avoid prefer = []"
    by (auto simp: protein_candidates_def filter_empty_conv)
  then have skip: "\<And>p s. protein_slot cat avoid prefer p s = Inr s"
    by (simp add: protein_slot_def)
  from assms(1) have pa: "\<forall>n \<in> set prefer. n \<in> set avoid \<or> get_food cat n = None"
    by auto
  have cs: "\<And>l pm s. carb_slot cat avoid prefer l pm s = carb_loop cat avoid l pm CARB_FOODS s"
    unfolding carb_slot_def using pa by (rule carb_loop_skip)
  from assms(1) pool_facts(1) have "\<forall>n \<in> set FAT_HELPERS. n \<in> set avoid \<or> get_food cat n = None"
    by auto
  then have fl: "\<And>l pm s. fat_loop cat avoid l pm FAT_HELPERS s = s"
    by (rule fat_loop_all_unusable)
  then have fs: "\<And>l pm s. fat_slot cat avoid l pm s = s"
    by (simp add: fat_slot_def)
  have m: "\<And>l pm p. one_meal cat avoid prefer l pm p =
             Inr (plan_of (carb_loop cat avoid l pm CARB_FOODS empty_meal))"
    using one_meal_result [OF skip] by (simp only: cs fs)
  have rec: "recommend_meals cat tk mr bw meals avoid prefer =
             Inr (replicate (nat meals)
                    (plan_of (carb_loop cat avoid (tk / real_of_int meals * 0.9)
                                (tk / real_of_int meals) CARB_FOODS empty_meal)))"
    using assms(2) m by (rule recommend_meals_replicate)
  have serve: "\<exists>rest. portions (carb_loop cat avoid (tk / real_of_int meals * 0.9)
                                    (tk / real_of_int meals) CARB_FOODS empty_meal) =
                    nutrition_for cat c
                      (min 250 (max 80 (tk / real_of_int meals * 0.9
                                          / max (kcal info) (1 / 1000000) * 100)))
                    # rest"
    if h: "0 < tk \<and> 0 < meals \<and> CARB_FOODS = pre @ c # post
              \<and> (\<forall>x \<in> set pre. x \<in> set avoid \<or> get_food cat x = None)
              \<and> c \<notin> set avoid \<and> get_food cat c = Some info"
  proof -
    from h have "0 < tk / real_of_int meals * 0.9"
      by simp
    with h show ?thesis
      by (intro carb_loop_first [of CARB_FOODS pre c post avoid cat info]) simp_all
  qed
  from skip cs fl fs rec serve show ?thesis
    by blast
qed

text \<open>
  Claim C7, amended. Take the first name of \<open>prefer\<close> followed by the protein pool that
  is not in \<open>avoid\<close> and for which the catalog lookup finds a row (a row of that name,
  or else the row of the containment fallback of \<open>get_food\<close>). When this name is not
  the empty string, every plan starts with its portion, and the grams are
  \<open>min 200 (max 50 (protein_per_meal / max p100 0.1 * 100))\<close>, where \<open>p100\<close> is the protein
  value of the row found and
  \<open>protein_per_meal = max (1.6 * body_weight) (target_kcal * protein_ratio / 4) / meals\<close>
  with \<open>protein_ratio\<close> defaulting to 0.3.
\<close>

theorem protein_portion_first_candidate:
  assumes "meals \<noteq> 0"
    and "filter (\<lambda>f. f \<notin> set avoid) (prefer @ PROTEIN_FOODS) = pre @ c # post"
    and "\<forall>x \<in> set pre. get_food cat x = None"
    and "get_food cat c = Some info"
    and "c \<noteq> []"
  shows "\<exists>plan rest.
           recommend_meals cat tk mr bw meals avoid prefer = Inr (replicate (nat meals) plan)
           \<and> items plan =
               nutrition_for cat c
                 (min 200 (max 50
                    (max (1.6 * bw)
                         (tk * (case map_of mr key_protein of Some r \<Rightarrow> r | None \<Rightarrow> 0.3) / 4)
                       / real_of_int meals / max (protein info) 0.1 * 100)))
               # rest"
proof -
  define ppm where "ppm = max (1.6 * bw)
         (tk * (case map_of mr key_protein of Some r \<Rightarrow> r | None \<Rightarrow> 0.3) / 4) / real_of_int meals"
  define fp where "fp = nutrition_for cat c (min 200 (max 50 (ppm / max (protein info) 0.1 * 100)))"
  from assms(2,3,4) have "pick_loop cat (protein_candidates avoid prefer) = Some c"
    unfolding pick_loop_Some protein_candidates_def by blast
  with assms(4,5) have ps: "protein_slot cat avoid prefer ppm empty_meal
                              = Inr (add_portion fp empty_meal)"
    unfolding protein_slot_def Let_def fp_def by (simp only: option.case if_False)
  have "portions (add_portion fp empty_meal) = [fp]"
    by (simp add: portions_add_portion empty_meal_def)
  then obtain rest where rest:
    "portions (fat_slot cat avoid (tk / real_of_int meals * 0.9) (tk / real_of_int meals)
                 (carb_slot cat avoid prefer (tk / real_of_int meals * 0.9)
                    (tk / real_of_int meals) (add_portion fp empty_meal))) = fp # rest"
    using slots_prefix [of cat avoid "tk / real_of_int meals * 0.9" "tk / real_of_int meals"
        "prefer" "add_portion fp empty_meal"]
    by auto
  from recommend_meals_replicate [OF assms(1) one_meal_result [OF ps [unfolded ppm_def]]]
  have "recommend_meals cat tk mr bw meals avoid prefer =
          Inr (replicate (nat meals)
                 (plan_of (fat_slot cat avoid (tk / real_of_int meals * 0.9) (tk / real_of_int meals)
                             (carb_slot cat avoid prefer (tk / real_of_int meals * 0.9)
                                (tk / real_of_int meals) (add_portion fp empty_meal)))))" .
  moreover from rest
  have "items (plan_of (fat_slot cat avoid (tk / real_of_int meals * 0.9) (tk / real_of_int meals)
                             (carb_slot cat avoid prefer (tk / real_of_int meals * 0.9)
                                (tk / real_of_int meals) (add_portion fp empty_meal)))) = fp # rest"
    by (simp only: items_plan_of)
  ultimately show ?thesis
    unfolding fp_def ppm_def by blast
qed

text \<open>
  Claim C6, amended. For \<open>meals \<ge> 1\<close> the call returns exactly \<open>meals\<close> plans. When
  \<open>target_kcal > 0\<close> and some name of the three pools is not avoided and found by the
  catalog lookup (in particular when a row of that name exists), every plan has at least
  one portion. When all catalog values are non-negative, the four totals of every plan
  are non-negative.
\<close>

theorem recommend_meals_plans:
  assumes "1 \<le> meals"
  shows "\<exists>plans.
           recommend_meals cat tk mr bw meals avoid prefer = Inr plans
           \<and> length plans = nat meals
           \<and> (0 < tk \<and> (\<exists>n \<in> set (PROTEIN_FOODS @ CARB_FOODS @ FAT_HELPERS).
                            n \<notin> set avoid \<and> get_food cat n \<noteq> None)
                \<longrightarrow> (\<forall>p \<in> set plans. items p \<noteq> []))
           \<and> ((\<forall>r \<in> set cat. 0 \<le> kcal r \<and> 0 \<le> protein r \<and> 0 \<le> fat r \<and> 0 \<le> carbs r)
                \<longrightarrow> (\<forall>p \<in> set plans. 0 \<le> plan_kcal p \<and> 0 \<le> plan_protein p
                                        \<and> 0 \<le> plan_fat p \<and> 0 \<le> plan_carbs p))"
proof -
  define ppm where "ppm = max (1.6 * bw)
         (tk * (case map_of mr key_protein of Some r \<Rightarrow> r | None \<Rightarrow> 0.3) / 4) / real_of_int meals"
  define pm where "pm = tk / real_of_int meals"
  define lower where "lower = pm * 0.9"
  obtain st1 where st1: "protein_slot cat avoid prefer ppm empty_meal = Inr st1"
    using protein_slot_no_error by blast
  define st2 where "st2 = carb_slot cat avoid prefer lower pm st1"
  define st3 where "st3 = fat_slot cat avoid lower pm st2"
  from assms have m0: "meals \<noteq> 0" by simp
  from recommend_meals_replicate [OF m0 one_meal_result [OF st1 [unfolded ppm_def]]]
  have res: "recommend_meals cat tk mr bw meals avoid prefer
               = Inr (replicate (nat meals) (plan_of st3))"
    unfolding st3_def st2_def lower_def pm_def .
  obtain e2 where e2: "portions st2 = portions st1 @ e2"
    unfolding st2_def carb_slot_def using carb_loop_prefix by blast
  obtain e3 where e3: "portions st3 = portions st1 @ e3"
    unfolding st3_def st2_def using slots_prefix by blast
  obtain e4 where e4: "portions st3 = portions st2 @ e4"
    unfolding st3_def fat_slot_def using fat_loop_prefix by (metis append_Nil2)
  have nonempty: "items (plan_of st3) \<noteq> []"
    if tk: "0 < tk"
      and ex: "\<exists>n \<in> set (PROTEIN_FOODS @ CARB_FOODS @ FAT_HELPERS).
                 n \<notin> set avoid \<and> get_food cat n \<noteq> None"
  proof -
    from tk assms have low: "0 < lower"
      unfolding lower_def pm_def by simp
    consider (added) "portions st1 \<noteq> []"
      | (skipped) "st1 = empty_meal"
          "pick_loop cat (protein_candidates avoid prefer) = None
           \<or> pick_loop cat (protein_candidates avoid prefer) = Some []"
      using protein_slot_cases [of cat avoid "prefer" ppm empty_meal] st1
      by (auto simp: portions_add_portion)
    then show ?thesis
    proof cases
      case added
      with e3 show ?thesis by (simp add: items_plan_of)
    next
      case skipped
      have usable: "\<exists>c \<in> set (prefer @ CARB_FOODS). c \<notin> set avoid \<and> get_food cat c \<noteq> None"
      proof (cases "pick_loop cat (protein_candidates avoid prefer)")
        case None
        then have none: "\<forall>x \<in> set (prefer @ PROTEIN_FOODS). x \<notin> set avoid \<longrightarrow> get_food cat x = None"
          by (simp add: pick_loop_None protein_candidates_def)
        from ex obtain n where n: "n \<in> set (PROTEIN_FOODS @ CARB_FOODS @ FAT_HELPERS)"
          "n \<notin> set avoid" "get_food cat n \<noteq> None" by blast
        with none pool_facts(1) have "n \<in> set CARB_FOODS" by auto
        with n show ?thesis by auto
      next
        case (Some c)
        with skipped(2) have c: "pick_loop cat (protein_candidates avoid prefer) = Some []"
          by simp
        then have "[] \<in> set (protein_candidates avoid prefer)" "get_food cat [] \<noteq> None"
          unfolding pick_loop_Some by auto
        with pool_facts(2) have "[] \<in> set prefer" "[] \<notin> set avoid"
          by (auto simp: protein_candidates_def)
        with \<open>get_food cat [] \<noteq> None\<close> show ?thesis by auto
      qed
      from low skipped(1) have "total_kcal st1 < lower"
        by (simp add: empty_meal_def)
      from carb_loop_adds [OF this usable, of pm]
      have "portions st2 \<noteq> []"
        unfolding st2_def carb_slot_def by auto
      with e4 show ?thesis by (simp add: items_plan_of)
    qed
  qed
  have nonneg: "0 \<le> plan_kcal (plan_of st3) \<and> 0 \<le> plan_protein (plan_of st3)
                \<and> 0 \<le> plan_fat (plan_of st3) \<and> 0 \<le> plan_carbs (plan_of st3)"
    if c: "\<forall>r \<in> set cat. 0 \<le> kcal r \<and> 0 \<le> protein r \<and> 0 \<le> fat r \<and> 0 \<le> carbs r"
  proof -
    note n1 = protein_slot_nonneg [OF c st1]
    note n2 = carb_loop_nonneg [OF c n1, of avoid lower pm "prefer @ CARB_FOODS"]
    then have n2': "0 \<le> total_kcal st2 \<and> 0 \<le> total_p st2 \<and> 0 \<le> total_f st2 \<and> 0 \<le> total_c st2"
      unfolding st2_def carb_slot_def .
    have "0 \<le> total_kcal st3 \<and> 0 \<le> total_p st3 \<and> 0 \<le> total_f st3 \<and> 0 \<le> total_c st3"
    proof (cases "total_kcal st2 < lower")
      case True
      then have "st3 = fat_loop cat avoid lower pm FAT_HELPERS st2"
        by (simp add: st3_def fat_slot_def)
      with fat_loop_nonneg [OF c n2', of avoid lower pm FAT_HELPERS] show ?thesis by simp
    next
      case False
      then have "st3 = st2" by (simp add: st3_def fat_slot_def)
      with n2' show ?thesis by simp
    qed
    then show ?thesis by (simp add: plan_of_def)
  qed
  from assms have len: "length (replicate (nat meals) (plan_of st3)) = nat meals"
    by simp
  have mem: "\<And>p. p \<in> set (replicate (nat meals) (plan_of st3)) \<Longrightarrow> p = plan_of st3"
    by simp
  show ?thesis
  proof (intro exI [of _ "replicate (nat meals) (plan_of st3)"] conjI impI ballI)
    show "recommend_meals cat tk mr bw meals avoid prefer = Inr (replicate (nat meals) (plan_of st3))"
      by (rule res)
    show "length (replicate (nat meals) (plan_of st3)) = nat meals"
      by (rule len)
  next
    fix p
    assume "0 < tk \<and> (\<exists>n \<in> set (PROTEIN_FOODS @ CARB_FOODS @ FAT_HELPERS).
                            n \<notin> set avoid \<and> get_food cat n \<noteq> None)"
      and "p \<in> set (replicate (nat meals) (plan_of st3))"
    with nonempty mem show "items p \<noteq> []" by blast
  next
    fix p
    assume "\<forall>r \<in> set cat. 0 \<le> kcal r \<and> 0 \<le> protein r \<and> 0 \<le> fat r \<and> 0 \<le> carbs r"
      and p: "p \<in> set (replicate (nat meals) (plan_of st3))"
    then have n: "0 \<le> plan_kcal (plan_of st3) \<and> 0 \<le> plan_protein (plan_of st3)
                \<and> 0 \<le> plan_fat (plan_of st3) \<and> 0 \<le> plan_carbs (plan_of st3)"
      using nonneg by blast
    from mem [OF p] n show "0 \<le> plan_kcal p" "0 \<le> plan_protein p" "0 \<le> plan_fat p"
      "0 \<le> plan_carbs p" by simp_all
  qed
qed

subsection \<open>Concrete evaluations\<close>

lemma get_food_rice_only:
  "get_food [ex_rice] [48177, 48120, 48165] = Some ex_rice"
  "\<forall>n \<in> set PROTEIN_FOODS. get_food [ex_rice] n = None"
  by (simp_all add: get_food_def ex_rice_def like_contains_def c_string_def ascii_lower_def
      PROTEIN_FOODS_def)

lemma get_food_ex_catalog:
  "get_food ex_catalog [44228, 46976] = Some ex_egg"
  "get_food ex_catalog [45805, 44032, 49844, 49332] = Some ex_chicken"
  "get_food ex_catalog [48177, 48120, 48165] = Some ex_rice"
  by (simp_all add: get_food_def ex_catalog_def ex_egg_def ex_chicken_def ex_rice_def)

lemma get_food_ex_catalog_bap: "get_food ex_catalog text_bap = Some ex_rice"
  by (simp add: get_food_def ex_catalog_def ex_egg_def ex_chicken_def ex_rice_def
      text_bap_def like_contains_def c_string_def ascii_lower_def)

lemma get_food_ex_catalog_none:
  "\<forall>n \<in> set (tl CARB_FOODS). get_food ex_catalog n = None"
  by (simp add: get_food_def ex_catalog_def ex_egg_def ex_chicken_def ex_rice_def
      like_contains_def c_string_def ascii_lower_def CARB_FOODS_def)

lemma one_meal_preferred_bap:
  "one_meal ex_catalog [] [text_bap] 234 260 112 =
     Inr \<lparr>items = [\<lparr>p_name = text_bap, p_grams = 200, p_kcal = 260, p_protein = 5.4,
                      p_fat = 0.6, p_carbs = 56.4\<rparr>],
          plan_kcal = 260, plan_protein = 5.4, plan_fat = 0.6, plan_carbs = 56.4\<rparr>"
proof -
  define fp where "fp = \<lparr>p_name = text_bap, p_grams = 200, p_kcal = 260, p_protein = 5.4,
      p_fat = 0.6, p_carbs = 56.4\<rparr>"
  define st where "st = add_portion fp empty_meal"
  have tk: "total_kcal st = 260"
    by (simp add: st_def fp_def add_portion_def empty_meal_def)
  have pick: "pick_loop ex_catalog (protein_candidates [] [text_bap]) = Some text_bap"
    by (simp add: protein_candidates_def get_food_ex_catalog_bap)
  have ne: "text_bap \<noteq> []"
    by (simp add: text_bap_def)
  have g: "min 200 (max 50 (112 / max (protein ex_rice) 0.1 * 100)) = (200::real)"
    by (simp add: ex_rice_def)
  have nf: "nutrition_for ex_catalog text_bap 200 = fp"
    by (simp add: nutrition_for_def get_food_ex_catalog_bap) (simp add: ex_rice_def fp_def)
  have ps: "protein_slot ex_catalog [] [text_bap] 112 empty_meal = Inr st"
    unfolding protein_slot_def pick option.case Let_def get_food_ex_catalog_bap g nf
    using ne by (simp add: st_def)
  have ni: "text_bap \<notin> set ([] :: pystr list)"
    by simp
  have r: "(if total_kcal st < (234::real) then max (234 - total_kcal st) 0
            else 260 - total_kcal st) = 0"
    by (simp add: tk)
  have body: "carb_body ex_catalog [] 234 260 text_bap st = Break st"
    unfolding carb_body_unfold [OF ni get_food_ex_catalog_bap] r
    by simp
  then have cs: "carb_slot ex_catalog [] [text_bap] 234 260 st = st"
    by (simp add: carb_slot_def)
  have fs: "fat_slot ex_catalog [] 234 260 st = st"
    by (simp add: fat_slot_def tk)
  show ?thesis
    by (simp add: one_meal_def ps cs fs plan_of_def)
      (simp add: st_def fp_def add_portion_def empty_meal_def)
qed

lemma carb_loop_avoid_protein:
  "carb_loop ex_catalog PROTEIN_FOODS 540 600 CARB_FOODS empty_meal =
     \<lparr>portions = [\<lparr>p_name = [48177, 48120, 48165], p_grams = 250, p_kcal = 325,
                      p_protein = 6.75, p_fat = 0.75, p_carbs = 70.5\<rparr>],
      total_kcal = 325, total_p = 6.75, total_f = 0.75, total_c = 70.5\<rparr>"
proof -
  define fp where "fp = \<lparr>p_name = [48177, 48120, 48165], p_grams = 250, p_kcal = 325,
      p_protein = 6.75, p_fat = 0.75, p_carbs = 70.5\<rparr>"
  define st where "st = add_portion fp empty_meal"
  have tk: "total_kcal st = 325"
    by (simp add: st_def fp_def add_portion_def empty_meal_def)
  have ni: "[48177, 48120, 48165] \<notin> set PROTEIN_FOODS"
    by (simp add: PROTEIN_FOODS_def)
  have g: "min 250 (max 80 (540 / max (kcal ex_rice) (1 / 1000000) * 100)) = (250::real)"
    by (simp add: ex_rice_def)
  have nf: "nutrition_for ex_catalog [48177, 48120, 48165] 250 = fp"
    by (simp add: nutrition_for_def get_food_ex_catalog(3)) (simp add: ex_rice_def fp_def)
  have r: "(if total_kcal empty_meal < (540::real) then max (540 - total_kcal empty_meal) 0
            else 600 - total_kcal empty_meal) = 540"
    by (simp add: empty_meal_def)
  have body:
    "carb_body ex_catalog PROTEIN_FOODS 540 600 [48177, 48120, 48165] empty_meal = Continue st"
    unfolding carb_body_unfold [OF ni get_food_ex_catalog(3)] r g nf st_def [symmetric]
    by (simp add: tk)
  have "carb_loop ex_catalog PROTEIN_FOODS 540 600 (tl CARB_FOODS) st = st"
    using get_food_ex_catalog_none by (simp add: carb_loop_all_unusable)
  moreover have "CARB_FOODS = [48177, 48120, 48165] # tl CARB_FOODS"
    by (simp add: CARB_FOODS_def)
  ultimately have "carb_loop ex_catalog PROTEIN_FOODS 540 600 CARB_FOODS empty_meal = st"
    using body by (metis carb_loop.simps(2) loop_step.simps(5))
  then show ?thesis
    by (simp add: st_def fp_def add_portion_def empty_meal_def)
qed

lemma one_meal_zero_target:
  "one_meal [ex_rice] [] [] 0 0 112 =
     Inr \<lparr>items = [], plan_kcal = 0, plan_protein = 0, plan_fat = 0, plan_carbs = 0\<rparr>"
proof -
  have "pick_loop [ex_rice] (protein_candidates [] []) = None"
    using get_food_rice_only(2) by (simp add: pick_loop_None protein_candidates_def)
  then have ps: "protein_slot [ex_rice] [] [] 112 empty_meal = Inr empty_meal"
    by (simp add: protein_slot_def)
  have ni: "[48177, 48120, 48165] \<notin> set ([] :: pystr list)"
    by simp
  have r: "(if total_kcal empty_meal < (0::real) then max (0 - total_kcal empty_meal) 0
            else 0 - total_kcal empty_meal) = 0"
    by (simp add: empty_meal_def)
  have body: "carb_body [ex_rice] [] 0 0 [48177, 48120, 48165] empty_meal = Break empty_meal"
    unfolding carb_body_unfold [OF ni get_food_rice_only(1)] r
    by simp
  then have cs: "carb_slot [ex_rice] [] [] 0 0 empty_meal = empty_meal"
    by (simp add: carb_slot_def CARB_FOODS_def)
  have fs: "fat_slot [ex_rice] [] 0 0 empty_meal = empty_meal"
    by (simp add: fat_slot_def empty_meal_def)
  show ?thesis
    by (simp add: one_meal_def ps cs fs plan_of_def) (simp add: empty_meal_def)
qed

lemma nutrition_for_name_grams:
  "p_name (nutrition_for cat nm g) = nm \<and> p_grams (nutrition_for cat nm g) = g"
  by (simp add: nutrition_for_def Let_def split: option.splits)

subsection \<open>Counterexamples and witnesses\<close>

text \<open>
  Claim C6, as stated, promises a non-empty item list for every \<open>target_kcal\<close>. With
  \<open>target_kcal = 0\<close>, one meal and a catalog whose only row is the first name of the
  carbohydrate pool, nothing remains to be filled: the carbohydrate loop stops before
  serving the row, and the plan is empty.
\<close>

theorem zero_target_counterexample:
  "(1::int) \<le> 1
   \<and> [48177, 48120, 48165] \<in> set (PROTEIN_FOODS @ CARB_FOODS @ FAT_HELPERS)
   \<and> get_food [ex_rice] [48177, 48120, 48165] = Some ex_rice
   \<and> recommend_meals [ex_rice] 0 [] 70 1 [] [] =
       Inr [\<lparr>items = [], plan_kcal = 0, plan_protein = 0, plan_fat = 0, plan_carbs = 0\<rparr>]"
proof -
  have "one_meal [ex_rice] [] [] (0 / real_of_int 1 * 0.9) (0 / real_of_int 1)
          (max (1.6 * 70) (0 * (case map_of [] key_protein of Some r \<Rightarrow> r | None \<Rightarrow> 0.3) / 4)
             / real_of_int 1) =
        Inr \<lparr>items = [], plan_kcal = 0, plan_protein = 0, plan_fat = 0, plan_carbs = 0\<rparr>"
    using one_meal_zero_target by simp
  from recommend_meals_replicate [OF _ this]
  have "recommend_meals [ex_rice] 0 [] 70 1 [] [] =
       Inr [\<lparr>items = [], plan_kcal = 0, plan_protein = 0, plan_fat = 0, plan_carbs = 0\<rparr>]"
    by simp
  then show ?thesis
    by (simp add: get_food_rice_only(1) CARB_FOODS_def)
qed

theorem recommend_meals_plans_witness:
  "(1::int) \<le> 3 \<and> (0::real) < 1800
   \<and> [44228, 46976] \<in> set (PROTEIN_FOODS @ CARB_FOODS @ FAT_HELPERS)
   \<and> get_food ex_catalog [44228, 46976] = Some ex_egg
   \<and> (\<exists>plans. recommend_meals ex_catalog 1800 [] 70 3 [] [] = Inr plans
                \<and> length plans = 3
                \<and> items (plans ! 0) \<noteq> []
                \<and> 0 \<le> plan_kcal (plans ! 0) \<and> 0 \<le> plan_protein (plans ! 0)
                \<and> 0 \<le> plan_fat (plans ! 0) \<and> 0 \<le> plan_carbs (plans ! 0))"
proof -
  have pool: "[44228, 46976] \<in> set (PROTEIN_FOODS @ CARB_FOODS @ FAT_HELPERS)"
    by (simp add: PROTEIN_FOODS_def)
  have ex: "\<exists>n \<in> set (PROTEIN_FOODS @ CARB_FOODS @ FAT_HELPERS).
              n \<notin> set [] \<and> get_food ex_catalog n \<noteq> None"
    using pool get_food_ex_catalog(1) by (intro bexI [of _ "[44228, 46976]"]) simp_all
  have nn: "\<forall>r \<in> set ex_catalog. 0 \<le> kcal r \<and> 0 \<le> protein r \<and> 0 \<le> fat r \<and> 0 \<le> carbs r"
    by (simp add: ex_catalog_def ex_egg_def ex_chicken_def ex_rice_def)
  from recommend_meals_plans [of 3 ex_catalog 1800 "[]" 70 "[]" "[]"] ex nn
  obtain plans where p: "recommend_meals ex_catalog 1800 [] 70 3 [] [] = Inr plans"
    "length plans = 3" "\<forall>p \<in> set plans. items p \<noteq> []"
    "\<forall>p \<in> set plans. 0 \<le> plan_kcal p \<and> 0 \<le> plan_protein p \<and> 0 \<le> plan_fat p \<and> 0 \<le> plan_carbs p"
    by auto
  from p(2) have "plans ! 0 \<in> set plans" by simp
  with p pool get_food_ex_catalog(1) show ?thesis by auto
qed

text \<open>
  Claim C7, as stated, makes the protein portion the first candidate that is not avoided
  and exists in the catalog. The scan asks \<open>get_food\<close>, whose fallback finds a row for a
  name that is only a part of a row's name: with the preferred name U+BC25, which is no
  row's name, and a catalog that holds the first name of the protein pool, the protein
  portion is U+BC25 with the values of the rice row, not the pool name that exists in
  the catalog. Its 200 g are the upper clamp of the protein slot; the carbohydrate slot
  finds the lower bound reached and serves nothing.
\<close>

theorem preferred_part_name_counterexample:
  "text_bap \<notin> set (map name ex_catalog)
   \<and> hd PROTEIN_FOODS \<in> set (map name ex_catalog)
   \<and> recommend_meals ex_catalog 260 [] 70 1 [] [text_bap] =
       Inr [\<lparr>items = [\<lparr>p_name = text_bap, p_grams = 200, p_kcal = 260, p_protein = 5.4,
                         p_fat = 0.6, p_carbs = 56.4\<rparr>],
             plan_kcal = 260, plan_protein = 5.4, plan_fat = 0.6, plan_carbs = 56.4\<rparr>]"
proof -
  have "one_meal ex_catalog [] [text_bap] (260 / real_of_int 1 * 0.9) (260 / real_of_int 1)
          (max (1.6 * 70) (260 * (case map_of [] key_protein of Some r \<Rightarrow> r | None \<Rightarrow> 0.3) / 4)
             / real_of_int 1) =
        Inr \<lparr>items = [\<lparr>p_name = text_bap, p_grams = 200, p_kcal = 260, p_protein = 5.4,
                         p_fat = 0.6, p_carbs = 56.4\<rparr>],
             plan_kcal = 260, plan_protein = 5.4, plan_fat = 0.6, plan_carbs = 56.4\<rparr>"
    using one_meal_preferred_bap by simp
  from recommend_meals_replicate [OF _ this]
  have r: "recommend_meals ex_catalog 260 [] 70 1 [] [text_bap] =
       Inr [\<lparr>items = [\<lparr>p_name = text_bap, p_grams = 200, p_kcal = 260, p_protein = 5.4,
                         p_fat = 0.6, p_carbs = 56.4\<rparr>],
             plan_kcal = 260, plan_protein = 5.4, plan_fat = 0.6, plan_carbs = 56.4\<rparr>]"
    by simp
  have n: "text_bap \<notin> set (map name ex_catalog)" "hd PROTEIN_FOODS \<in> set (map name ex_catalog)"
    by (simp_all add: ex_catalog_def ex_egg_def ex_chicken_def ex_rice_def text_bap_def
        PROTEIN_FOODS_def)
  from r n show ?thesis
    by blast
qed

theorem protein_portion_first_candidate_witness:
  "(3::int) \<noteq> 0
   \<and> filter (\<lambda>f. f \<notin> set []) ([] @ PROTEIN_FOODS) = [] @ [45805, 44032, 49844, 49332] # tl PROTEIN_FOODS
   \<and> get_food ex_catalog [45805, 44032, 49844, 49332] = Some ex_chicken
   \<and> (\<exists>plan. recommend_meals ex_catalog 1800 [] 70 3 [] [] = Inr (replicate 3 plan)
              \<and> p_name (hd (items plan)) = [45805, 44032, 49844, 49332]
              \<and> p_grams (hd (items plan)) = 4500 / 31)"
proof -
  have f: "filter (\<lambda>f. f \<notin> set []) ([] @ PROTEIN_FOODS)
             = [] @ [45805, 44032, 49844, 49332] # tl PROTEIN_FOODS"
    by (simp add: PROTEIN_FOODS_def)
  have n: "\<forall>x \<in> set ([] :: pystr list). get_food ex_catalog x = None"
    by simp
  have c: "[45805, 44032, 49844, 49332] \<noteq> ([] :: pystr)"
    by simp
  have g: "min 200 (max 50 (max (1.6 * 70)
                 (1800 * (case map_of [] key_protein of Some r \<Rightarrow> r | None \<Rightarrow> 0.3) / 4)
               / real_of_int 3 / max (protein ex_chicken) 0.1 * 100)) = (4500 / 31 :: real)"
    by (simp add: ex_chicken_def)
  from protein_portion_first_candidate [of 3 "[]" "[]" "[]" "[45805, 44032, 49844, 49332]"
      "tl PROTEIN_FOODS" ex_catalog ex_chicken 1800 "[]" 70, OF _ f n get_food_ex_catalog(2) c]
  obtain plan rest where
    "recommend_meals ex_catalog 1800 [] 70 3 [] [] = Inr (replicate (nat 3) plan)"
    "items plan = nutrition_for ex_catalog [45805, 44032, 49844, 49332] (4500 / 31) # rest"
    unfolding g by auto
  then have "recommend_meals ex_catalog 1800 [] 70 3 [] [] = Inr (replicate 3 plan)
              \<and> p_name (hd (items plan)) = [45805, 44032, 49844, 49332]
              \<and> p_grams (hd (items plan)) = 4500 / 31"
    by (simp add: nutrition_for_name_grams)
  moreover have "(3::int) \<noteq> 0"
    by simp
  ultimately show ?thesis
    using f get_food_ex_catalog(2) by blast
qed

theorem protein_slot_skipped_witness:
  "set PROTEIN_FOODS \<union> set [] \<subseteq> set PROTEIN_FOODS
   \<and> (3::int) \<noteq> 0
   \<and> protein_slot ex_catalog PROTEIN_FOODS [] 45 empty_meal = Inr empty_meal
   \<and> CARB_FOODS = [] @ [48177, 48120, 48165] # tl CARB_FOODS
   \<and> get_food ex_catalog [48177, 48120, 48165] = Some ex_rice
   \<and> recommend_meals ex_catalog 1800 [] 70 3 PROTEIN_FOODS [] =
       Inr (replicate 3
              \<lparr>items = [\<lparr>p_name = [48177, 48120, 48165], p_grams = 250, p_kcal = 325,
                          p_protein = 6.75, p_fat = 0.75, p_carbs = 70.5\<rparr>],
               plan_kcal = 325, plan_protein = 6.75, plan_fat = 0.75, plan_carbs = 70.5\<rparr>)"
proof -
  have s: "set PROTEIN_FOODS \<union> set [] \<subseteq> set PROTEIN_FOODS"
    by simp
  have m: "(3::int) \<noteq> 0"
    by simp
  have c: "CARB_FOODS = [] @ [48177, 48120, 48165] # tl CARB_FOODS"
    by (simp add: CARB_FOODS_def)
  from protein_slot_skipped [of "[]" PROTEIN_FOODS 3 ex_catalog 45 empty_meal 540 600
      1800 "[]" 70, OF s m]
  have "protein_slot ex_catalog PROTEIN_FOODS [] 45 empty_meal = Inr empty_meal"
    and "recommend_meals ex_catalog 1800 [] 70 3 PROTEIN_FOODS [] =
           Inr (replicate (nat 3)
                  (plan_of (carb_loop ex_catalog PROTEIN_FOODS (1800 / real_of_int 3 * 0.9)
                              (1800 / real_of_int 3) CARB_FOODS empty_meal)))"
    by blast+
  then show ?thesis
    using s c get_food_ex_catalog(3) by (simp add: carb_loop_avoid_protein plan_of_def)
qed

end
